theory Spec2Isabelle
  imports Complex_Main "HOL-Library.Sublist"
begin

section \<open>Errors\<close>

text \<open>
  Modelled from the spec: the error classes \<^verbatim>\<open>HttpError\<close> and \<^verbatim>\<open>GcpError\<close> are used by
  \<^verbatim>\<open>yandex_api.ts\<close> and \<^verbatim>\<open>yandex_account.ts\<close> but declared nowhere under src/, and
  \<^verbatim>\<open>ServerInstallFailedError\<close> / \<^verbatim>\<open>ServerInstallCanceledError\<close> live in
  \<^verbatim>\<open>model/server\<close>. The spec names them as the transport error that "carries status
  code/message", the operation error, and the install-failure and cancellation errors.
  Each carries what its constructor call passes: an HTTP error its numeric status and
  status text (\<^verbatim>\<open>getStatusCode()\<close> reads the status back), an operation error the code
  and message of one entry (either may be \<^verbatim>\<open>undefined\<close>), an install failure its message
  (empty when constructed without one).
  \<^verbatim>\<open>TypeError\<close> is the JavaScript built-in (its message depends on the engine and is
  left out); \<^verbatim>\<open>Error\<close> is a plain \<^verbatim>\<open>new Error(msg)\<close>.
\<close>

datatype error =
    HttpError int string
  | GcpError "string option" "string option"
  | ServerInstallFailedError string
  | ServerInstallCanceledError
  | TypeError
  | Error string

text \<open>
  \<^verbatim>\<open>function is404(error) { return error instanceof HttpError && error.getStatusCode() === 404; }\<close>
\<close>

fun is404 :: "error \<Rightarrow> bool" where
  "is404 (HttpError status statusText) = (status = 404)"
| "is404 _ = False"

section \<open>The installation state\<close>

text \<open>The enum \<^verbatim>\<open>InstallState\<close>, in declaration order; \<open>state_num\<close> is its numeric value.\<close>

datatype InstallState =
    UNKNOWN
  | INSTANCE_CREATED
  | IP_ALLOCATED
  | INSTANCE_RUNNING
  | CERTIFICATE_CREATED
  | COMPLETED
  | FAILED
  | CANCELED

fun state_num :: "InstallState \<Rightarrow> nat" where
  "state_num UNKNOWN = 0"
| "state_num INSTANCE_CREATED = 1"
| "state_num IP_ALLOCATED = 2"
| "state_num INSTANCE_RUNNING = 3"
| "state_num CERTIFICATE_CREATED = 4"
| "state_num COMPLETED = 5"
| "state_num FAILED = 6"
| "state_num CANCELED = 7"

text \<open>
  \<^verbatim>\<open>getCompletionFraction\<close>: the decimal literals of the source, read as exact
  rationals; the \<^verbatim>\<open>default\<close> branch covers \<open>FAILED\<close> and \<open>CANCELED\<close>.
\<close>

fun getCompletionFraction :: "InstallState \<Rightarrow> rat" where
  "getCompletionFraction UNKNOWN = 0.01"
| "getCompletionFraction INSTANCE_CREATED = 0.12"
| "getCompletionFraction IP_ALLOCATED = 0.14"
| "getCompletionFraction INSTANCE_RUNNING = 0.4"
| "getCompletionFraction CERTIFICATE_CREATED = 0.7"
| "getCompletionFraction COMPLETED = 1.0"
| "getCompletionFraction _ = 0"

definition isFinal :: "InstallState \<Rightarrow> bool" where
  "isFinal state \<longleftrightarrow> state = COMPLETED \<or> state = FAILED \<or> state = CANCELED"

section \<open>The value stream\<close>

text \<open>
  Modelled from the spec: the class \<^verbatim>\<open>ValueStream\<close> of
  \<^verbatim>\<open>@outline/infrastructure/value_stream\<close> is not under src/. The spec describes it as
  a channel holding the latest value, which "terminal states close ... to further
  writes", so that "readers observe a final value". The model keeps the held value and
  the closed flag; \<open>vs_set\<close> answers \<open>None\<close> when the stream is closed (the write is
  refused and the held value stays), \<open>vs_close\<close> is idempotent. Whether a refused write
  also raises is not said. The functions below stop where a write is refused; as a
  closed stream stays closed and every loop tests that before its next step, the server
  they leave is the same if it does not raise.
\<close>

record 'a ValueStream =
  held :: 'a
  closed :: bool

definition vs_new :: "'a \<Rightarrow> 'a ValueStream" where
  "vs_new v = \<lparr>held = v, closed = False\<rparr>"

definition vs_get :: "'a ValueStream \<Rightarrow> 'a" where
  "vs_get vs = held vs"

definition vs_isClosed :: "'a ValueStream \<Rightarrow> bool" where
  "vs_isClosed vs = closed vs"

definition vs_set :: "'a \<Rightarrow> 'a ValueStream \<Rightarrow> 'a ValueStream option" where
  "vs_set v vs = (if closed vs then None else Some (vs\<lparr>held := v\<rparr>))"

definition vs_close :: "'a ValueStream \<Rightarrow> 'a ValueStream" where
  "vs_close vs = vs\<lparr>closed := True\<rparr>"

section \<open>The server object\<close>

text \<open>
  Modelled from the spec: \<^verbatim>\<open>makePathApiClient\<close> (\<^verbatim>\<open>./fetcher\<close>) is not under src/; the
  management endpoint it builds is "identified by a URL and a certificate
  fingerprint", so the handle is the pair of its two arguments.
\<close>

datatype PathApiClient = PathApiClient string string

definition makePathApiClient :: "string \<Rightarrow> string \<Rightarrow> PathApiClient" where
  "makePathApiClient apiUrl fingerprint = PathApiClient apiUrl fingerprint"

text \<open>
  The mutable fields of \<^verbatim>\<open>class YandexServer\<close> (the one that extends
  \<^verbatim>\<open>ShadowboxServer\<close>): the \<^verbatim>\<open>installState\<close> stream and the management API set through
  \<^verbatim>\<open>setManagementApi\<close>. \<open>recorded\<close> is a ghost field: the values the stream has
  accepted, oldest first.
\<close>

record YandexServer =
  installState :: "InstallState ValueStream"
  managementApi :: "PathApiClient option"
  recorded :: "InstallState list"

text \<open>\<^verbatim>\<open>installState = new ValueStream<InstallState>(InstallState.UNKNOWN)\<close>\<close>

definition newYandexServer :: YandexServer where
  "newYandexServer = \<lparr>installState = vs_new UNKNOWN, managementApi = None, recorded = []\<rparr>"

definition setManagementApi :: "PathApiClient \<Rightarrow> YandexServer \<Rightarrow> YandexServer" where
  "setManagementApi api srv = srv\<lparr>managementApi := Some api\<rparr>"

text \<open>
  \<^verbatim>\<open>setInstallState(newState) { this.installState.set(newState);
     if (isFinal(newState)) { this.installState.close(); } }\<close>
  The result is \<open>None\<close> when the stream refuses the write; the server is then unchanged.
\<close>

definition setInstallState :: "InstallState \<Rightarrow> YandexServer \<Rightarrow> YandexServer option" where
  "setInstallState newState srv =
     (case vs_set newState (installState srv) of
        None \<Rightarrow> None
      | Some vs \<Rightarrow>
          Some (srv\<lparr>installState := (if isFinal newState then vs_close vs else vs),
                    recorded := recorded srv @ [newState]\<rparr>))"

text \<open>
  \<^verbatim>\<open>onDelete() { if (!this.installState.isClosed()) { this.setInstallState(CANCELED); } }\<close>
\<close>

definition onDelete :: "YandexServer \<Rightarrow> YandexServer" where
  "onDelete srv =
     (if \<not> vs_isClosed (installState srv)
      then (case setInstallState CANCELED srv of None \<Rightarrow> srv | Some srv' \<Rightarrow> srv')
      else srv)"

text \<open>
  \<^verbatim>\<open>monitorInstallProgress\<close>. The generator first forwards what
  \<^verbatim>\<open>installState.watch()\<close> yields, mapped through \<^verbatim>\<open>getCompletionFraction\<close>; \<open>watched\<close>
  is that finite sequence of states and \<open>srv\<close> the server when the watch has ended.
  The result is the sequence of yielded fractions and the error thrown, if any.
\<close>

definition monitorInstallProgress ::
    "InstallState list \<Rightarrow> YandexServer \<Rightarrow> rat list \<times> error option" where
  "monitorInstallProgress watched srv =
     (let yielded = map getCompletionFraction watched in
      if vs_get (installState srv) = FAILED then (yielded, Some (ServerInstallFailedError []))
      else if vs_get (installState srv) = CANCELED then (yielded, Some ServerInstallCanceledError)
      else (yielded @ [getCompletionFraction (vs_get (installState srv))], None))"

text \<open>
  The servers that calls of the state-changing methods can produce from a fresh one.
\<close>

inductive reachable :: "YandexServer \<Rightarrow> bool" where
  fresh: "reachable newYandexServer"
| set_state: "reachable srv \<Longrightarrow> setInstallState st srv = Some srv' \<Longrightarrow> reachable srv'"
| set_api: "reachable srv \<Longrightarrow> reachable (setManagementApi api srv)"
| deleted: "reachable srv \<Longrightarrow> reachable (onDelete srv)"

section \<open>Guest attributes and the poll loop\<close>

text \<open>
  What \<^verbatim>\<open>fetchAuthenticated\<close> resolves to for the guest-attribute endpoint: an object
  whose \<^verbatim>\<open>queryValue.items\<close> is a list of key/value entries. Only that path is read
  (\<^verbatim>\<open>guestAttributes?.queryValue?.items ?? []\<close>), so the object is the optional list.
\<close>

datatype GuestAttributes = GuestAttributes "(string \<times> string) list option"

fun queryValue_items :: "GuestAttributes \<Rightarrow> (string \<times> string) list option" where
  "queryValue_items (GuestAttributes its) = its"

text \<open>
  \<^verbatim>\<open>RestApiClient.getGuestAttributes\<close>: \<^verbatim>\<open>try { return await this.fetchAuthenticated(...) }
  catch (error) { return undefined; }\<close>. The argument is the outcome of the awaited
  fetch (which itself resolves to \<^verbatim>\<open>undefined\<close> on a 204); \<open>None\<close> is \<^verbatim>\<open>undefined\<close>.
\<close>

definition getGuestAttributes :: "error + GuestAttributes option \<Rightarrow> GuestAttributes option" where
  "getGuestAttributes fetched = (case fetched of Inl e \<Rightarrow> None | Inr response \<Rightarrow> response)"

text \<open>
  \<^verbatim>\<open>getOutlineGuestAttributes\<close>: the entries are written into a \<^verbatim>\<open>Map\<close> in order, a
  later entry replacing an earlier one with the same key.
\<close>

definition getOutlineGuestAttributes :: "GuestAttributes option \<Rightarrow> (string \<rightharpoonup> string)" where
  "getOutlineGuestAttributes guestAttributes =
     (let attributes =
            (case guestAttributes of
               None \<Rightarrow> []
             | Some ga \<Rightarrow> (case queryValue_items ga of None \<Rightarrow> [] | Some its \<Rightarrow> its))
      in foldl (\<lambda>result (k, v). result(k \<mapsto> v)) Map.empty attributes)"

definition has :: "(string \<rightharpoonup> string) \<Rightarrow> string \<Rightarrow> bool" where
  "has m k \<longleftrightarrow> m k \<noteq> None"

text \<open>How one pass through the body of the \<^verbatim>\<open>while\<close> loop leaves it.\<close>

datatype loop_exit =
    Sleep   \<comment> \<open>falls through to \<^verbatim>\<open>await sleep(...)\<close> and the next test of the loop\<close>
  | Break   \<comment> \<open>\<^verbatim>\<open>break\<close>\<close>
  | Throw   \<comment> \<open>an exception leaves the loop (\<^verbatim>\<open>atob\<close>, or a refused write)\<close>

text \<open>
  The body of the loop of \<^verbatim>\<open>pollInstallState\<close> after the attributes have arrived.
  \<open>atob\<close> is the platform's base64 decoder, \<open>None\<close> where it throws.
\<close>

definition pollOnce ::
    "(string \<Rightarrow> string option) \<Rightarrow> (string \<rightharpoonup> string) \<Rightarrow> YandexServer
      \<Rightarrow> YandexServer \<times> loop_exit" where
  "pollOnce atob outlineGuestAttributes srv =
     (if has outlineGuestAttributes ''apiUrl'' \<and> has outlineGuestAttributes ''certSha256''
      then (case (outlineGuestAttributes ''certSha256'', outlineGuestAttributes ''apiUrl'') of
              (Some certSha256, Some apiUrl) \<Rightarrow>
                (case atob certSha256 of
                   None \<Rightarrow> (srv, Throw)
                 | Some fingerprint \<Rightarrow>
                     (let srv1 = setManagementApi (makePathApiClient apiUrl fingerprint) srv in
                      case setInstallState COMPLETED srv1 of
                        None \<Rightarrow> (srv1, Throw)
                      | Some srv2 \<Rightarrow> (srv2, Break)))
            | _ \<Rightarrow> (srv, Throw) \<comment> \<open>cannot arise: both keys are present\<close>)
      else if has outlineGuestAttributes ''install-error''
      then (case setInstallState FAILED srv of
              None \<Rightarrow> (srv, Throw)
            | Some srv1 \<Rightarrow> (srv1, Break))
      else if has outlineGuestAttributes ''certSha256''
      then (case setInstallState CERTIFICATE_CREATED srv of
              None \<Rightarrow> (srv, Throw)
            | Some srv1 \<Rightarrow> (srv1, Sleep))
      else if has outlineGuestAttributes ''install-started''
      then (case setInstallState INSTANCE_RUNNING srv of
              None \<Rightarrow> (srv, Throw)
            | Some srv1 \<Rightarrow> (srv1, Sleep))
      else (srv, Sleep))"

text \<open>
  One round of the loop as the environment shapes it: the outcome of the fetch, and
  whether a deletion request (\<open>onDelete\<close>) arrives while the loop is suspended in the
  fetch or in the sleep.
\<close>

record poll_round =
  deleteWhileFetching :: bool
  fetched :: "error + GuestAttributes option"
  deleteWhileSleeping :: bool

definition snapshot :: "poll_round \<Rightarrow> (string \<rightharpoonup> string)" where
  "snapshot r = getOutlineGuestAttributes (getGuestAttributes (fetched r))"

text \<open>
  \<^verbatim>\<open>pollInstallState\<close>: \<^verbatim>\<open>while (!this.installState.isClosed()) { fetch; body; sleep }\<close>.
  The loop has no bound of its own; the function runs it over the rounds given and
  returns the server as it stands when they are used up or the loop has ended.
\<close>

fun pollInstallState ::
    "(string \<Rightarrow> string option) \<Rightarrow> poll_round list \<Rightarrow> YandexServer \<Rightarrow> YandexServer" where
  "pollInstallState atob [] srv = srv"
| "pollInstallState atob (r # rounds) srv =
     (if vs_isClosed (installState srv) then srv
      else
        (case pollOnce atob (snapshot r) (if deleteWhileFetching r then onDelete srv else srv) of
           (srv1, Sleep) \<Rightarrow>
             pollInstallState atob rounds (if deleteWhileSleeping r then onDelete srv1 else srv1)
         | (srv1, _) \<Rightarrow> srv1))"

section \<open>From construction to the poll loop\<close>

text \<open>
  What the environment contributes to one provisioning attempt: how the
  \<^verbatim>\<open>instanceCreation\<close> promise settles (\<open>None\<close>: resolved), what \<^verbatim>\<open>await hasStaticIp\<close>
  and \<^verbatim>\<open>await this.promoteEphemeralIp()\<close> give, the rounds of the poll loop, and whether
  a deletion request arrives while the constructor's chain is suspended.
\<close>

record provisioning =
  deleteWhileCreating :: bool
  instanceCreation :: "error option"
  deleteWhileAllocating :: bool
  staticIpCheck :: "error + bool"
  ipPromotion :: "error option"
  rounds :: "poll_round list"

datatype settled = Resolved | Rejected

text \<open>
  \<^verbatim>\<open>.catch(e => { this.setInstallState(InstallState.FAILED); throw e; })\<close>: the promise is
  rejected whether or not the stream took the write.
\<close>

definition onRejected :: "YandexServer \<Rightarrow> YandexServer \<times> settled" where
  "onRejected srv =
     (case setInstallState FAILED srv of
        None \<Rightarrow> (srv, Rejected)
      | Some srv1 \<Rightarrow> (srv1, Rejected))"

text \<open>
  The second half of the \<^verbatim>\<open>.then\<close> callback, after the static address is settled:
  \<^verbatim>\<open>if (isClosed()) return; setInstallState(IP_ALLOCATED); this.pollInstallState();\<close>.
  The poll loop is started and not awaited, so its exceptions do not reach the promise.
\<close>

definition afterIpAllocated ::
    "(string \<Rightarrow> string option) \<Rightarrow> poll_round list \<Rightarrow> YandexServer \<Rightarrow> YandexServer \<times> settled" where
  "afterIpAllocated atob rs srv =
     (if vs_isClosed (installState srv) then (srv, Resolved)
      else (case setInstallState IP_ALLOCATED srv of
              None \<Rightarrow> onRejected srv
            | Some srv1 \<Rightarrow> (pollInstallState atob rs srv1, Resolved)))"

text \<open>
  The chain \<^verbatim>\<open>instanceCreation.then(async () => {...}).catch(...)\<close> of the constructor,
  which is the \<^verbatim>\<open>instanceReadiness\<close> promise: the server it leaves and how it settles.
\<close>

definition instanceReadiness ::
    "(string \<Rightarrow> string option) \<Rightarrow> provisioning \<Rightarrow> YandexServer \<Rightarrow> YandexServer \<times> settled" where
  "instanceReadiness atob p srv0 =
     (let srv = (if deleteWhileCreating p then onDelete srv0 else srv0) in
      case instanceCreation p of
        Some e \<Rightarrow> onRejected srv
      | None \<Rightarrow>
          if vs_isClosed (installState srv) then (srv, Resolved)
          else (case setInstallState INSTANCE_CREATED srv of
                  None \<Rightarrow> onRejected srv
                | Some srv1 \<Rightarrow>
                    (let srv2 = (if deleteWhileAllocating p then onDelete srv1 else srv1) in
                     case staticIpCheck p of
                       Inl e \<Rightarrow> onRejected srv2
                     | Inr True \<Rightarrow> afterIpAllocated atob (rounds p) srv2
                     | Inr False \<Rightarrow>
                         (case ipPromotion p of
                            Some e \<Rightarrow> onRejected srv2
                          | None \<Rightarrow> afterIpAllocated atob (rounds p) srv2))))"

text \<open>
  What a snapshot makes the loop body write when it writes a non-terminal state: the
  keys that lead to \<^verbatim>\<open>setInstallState(CERTIFICATE_CREATED)\<close> and those that lead to
  \<^verbatim>\<open>setInstallState(INSTANCE_RUNNING)\<close>.
\<close>

definition showsCertificate :: "(string \<rightharpoonup> string) \<Rightarrow> bool" where
  "showsCertificate m \<longleftrightarrow>
     has m ''certSha256'' \<and> \<not> has m ''apiUrl'' \<and> \<not> has m ''install-error''"

definition showsStartedOnly :: "(string \<rightharpoonup> string) \<Rightarrow> bool" where
  "showsStartedOnly m \<longleftrightarrow>
     has m ''install-started'' \<and> \<not> has m ''certSha256'' \<and> \<not> has m ''install-error''"

text \<open>
  Whether no snapshot that leads to \<open>INSTANCE_RUNNING\<close> comes after one that leads to
  \<open>CERTIFICATE_CREATED\<close>.
\<close>

fun noStartedOnlyAfterCertificate :: "poll_round list \<Rightarrow> bool" where
  "noStartedOnlyAfterCertificate [] = True"
| "noStartedOnlyAfterCertificate (r # rs) =
     ((if showsCertificate (snapshot r)
       then list_all (\<lambda>r'. \<not> showsStartedOnly (snapshot r')) rs else True)
      \<and> noStartedOnlyAfterCertificate rs)"

text \<open>
  One step of the recorded sequence: the enum value does not go down, or, when \<open>strict\<close>
  is off, the step is the one from \<open>CERTIFICATE_CREATED\<close> back to \<open>INSTANCE_RUNNING\<close>.
  \<open>stepwise\<close> asks that of every two neighbours.
\<close>

definition advance :: "bool \<Rightarrow> InstallState \<Rightarrow> InstallState \<Rightarrow> bool" where
  "advance strict a b \<longleftrightarrow>
     state_num a \<le> state_num b
   \<or> (\<not> strict \<and> a = CERTIFICATE_CREATED \<and> b = INSTANCE_RUNNING)"

fun stepwise :: "bool \<Rightarrow> InstallState list \<Rightarrow> bool" where
  "stepwise strict (a # b # rest) = (advance strict a b \<and> stepwise strict (b # rest))"
| "stepwise strict sts = True"

text \<open>Whether no terminal state is followed by another entry.\<close>

fun terminalOnlyLast :: "InstallState list \<Rightarrow> bool" where
  "terminalOnlyLast [] = True"
| "terminalOnlyLast [st] = True"
| "terminalOnlyLast (st # rest) = (\<not> isFinal st \<and> terminalOnlyLast rest)"

section \<open>The session: creating an instance\<close>

text \<open>
  What \<^verbatim>\<open>RestApiSession.request\<close> rejects with: \<^verbatim>\<open>new XhrError()\<close> (on 401 and on a
  transport error) or \<^verbatim>\<open>new Error(`XHR ... failed with ...`)\<close>. An \<^verbatim>\<open>XhrError\<close> is
  constructed without a message, so its \<^verbatim>\<open>message\<close> is the empty string.
\<close>

datatype request_error = XhrError | RequestError string

fun message :: "request_error \<Rightarrow> string" where
  "message XhrError = []"
| "message (RequestError msg) = msg"

text \<open>
  \<^verbatim>\<open>String.prototype.toLowerCase\<close> on the ASCII letters. Other code units are left as
  they are: no lower-casing of a non-ASCII character yields a letter of \<open>finalizing\<close>
  next to the letter that follows it there, so whether that word occurs is unchanged.
\<close>

definition toLowerCaseChar :: "char \<Rightarrow> char" where
  "toLowerCaseChar c =
     (if 65 \<le> (of_char c :: nat) \<and> (of_char c :: nat) \<le> 90
      then char_of ((of_char c :: nat) + 32) else c)"

definition toLowerCase :: "string \<Rightarrow> string" where
  "toLowerCase s = map toLowerCaseChar s"

text \<open>
  \<^verbatim>\<open>String.prototype.indexOf\<close>: the position of the first occurrence, or \<open>-1\<close>.
\<close>

fun indexOf :: "string \<Rightarrow> string \<Rightarrow> int" where
  "indexOf [] needle = (if needle = [] then 0 else -1)"
| "indexOf (c # s) needle =
     (if prefix needle (c # s) then 0
      else (let i = indexOf s needle in if i < 0 then -1 else i + 1))"

record YandexInstanceSpecification =
  installCommand :: string
  specSize :: string
  specImage :: string
  specTags :: "string list"

text \<open>The JSON body of \<^verbatim>\<open>POST instances\<close>.\<close>

record instance_request =
  bodyName :: string
  bodyRegion :: string
  bodySize :: string
  bodyImage :: string
  bodySshKeys :: "string list"
  bodyUserData :: string
  bodyTags :: "string list"
  bodyIpv6 :: bool

text \<open>What the session does that the outside sees, in order.\<close>

datatype session_effect =
    PostAccountKeys string string   \<comment> \<open>\<^verbatim>\<open>POST account/keys {name, public_key}\<close>\<close>
  | PostInstances instance_request  \<comment> \<open>\<^verbatim>\<open>POST instances {...}\<close>\<close>
  | SetTimeout nat                  \<comment> \<open>\<^verbatim>\<open>setTimeout(makeRequestRecursive, ms)\<close>\<close>

definition MAX_REQUESTS :: nat where
  "MAX_REQUESTS = 10"

definition RETRY_TIMEOUT_MS :: nat where
  "RETRY_TIMEOUT_MS = 5000"

text \<open>
  \<^verbatim>\<open>makeRequestRecursive\<close>, with the counter \<^verbatim>\<open>requestCount\<close> of the enclosing closure
  passed along. \<open>respond k\<close> is how the \<open>k\<close>-th \<^verbatim>\<open>POST instances\<close> of this call ends. The
  result is what was done, in order, and how the promise settles (\<open>Inl\<close>: rejected).
\<close>

function makeRequestRecursive ::
    "(nat \<Rightarrow> request_error + 'a) \<Rightarrow> instance_request \<Rightarrow> nat
      \<Rightarrow> session_effect list \<times> (request_error + 'a)" where
  "makeRequestRecursive respond body requestCount =
     (case respond (requestCount + 1) of
        Inr response \<Rightarrow> ([PostInstances body], Inr response)
      | Inl e \<Rightarrow>
          if indexOf (toLowerCase (message e)) ''finalizing'' \<ge> 0
             \<and> requestCount + 1 < MAX_REQUESTS
          then (let (effects, outcome) = makeRequestRecursive respond body (requestCount + 1)
                in (PostInstances body # SetTimeout RETRY_TIMEOUT_MS # effects, outcome))
          else ([PostInstances body], Inl e))"
  by pat_completeness auto
termination
  by (relation "measure (\<lambda>(respond, body, requestCount). MAX_REQUESTS - requestCount)") auto

declare makeRequestRecursive.simps [simp del]

definition makeCreateInstanceRequest ::
    "(nat \<Rightarrow> request_error + 'a) \<Rightarrow> string \<Rightarrow> string \<Rightarrow> string \<Rightarrow> YandexInstanceSpecification
      \<Rightarrow> session_effect list \<times> (request_error + 'a)" where
  "makeCreateInstanceRequest respond instanceName region keyId instanceSpec =
     makeRequestRecursive respond
       \<lparr>bodyName = instanceName, bodyRegion = region, bodySize = specSize instanceSpec,
        bodyImage = specImage instanceSpec, bodySshKeys = [keyId],
        bodyUserData = installCommand instanceSpec, bodyTags = specTags instanceSpec,
        bodyIpv6 = True\<rparr>
       0"

text \<open>
  \<^verbatim>\<open>makeValidInstanceName(name) { return name.replace(/[^A-Za-z0-9-]/g, ''); }\<close>
\<close>

definition validNameChar :: "char \<Rightarrow> bool" where
  "validNameChar c \<longleftrightarrow>
     (65 \<le> (of_char c :: nat) \<and> (of_char c :: nat) \<le> 90)
   \<or> (97 \<le> (of_char c :: nat) \<and> (of_char c :: nat) \<le> 122)
   \<or> (48 \<le> (of_char c :: nat) \<and> (of_char c :: nat) \<le> 57)
   \<or> c = CHR ''-''"

definition makeValidInstanceName :: "string \<Rightarrow> string" where
  "makeValidInstanceName name = filter validNameChar name"

text \<open>
  \<^verbatim>\<open>RestApiSession.createInstance\<close>: \<^verbatim>\<open>registerKey_(instanceName, publicKeyForSSH)\<close>, then
  \<^verbatim>\<open>makeCreateInstanceRequest(instanceName, region, keyId, instanceSpec)\<close>.
  \<open>registration\<close> is how the key registration ends (\<open>Inr\<close>: the \<^verbatim>\<open>ssh_key.id\<close> of the
  response).
\<close>

definition createInstance ::
    "request_error + string \<Rightarrow> (nat \<Rightarrow> request_error + 'a) \<Rightarrow> string \<Rightarrow> string \<Rightarrow> string
      \<Rightarrow> YandexInstanceSpecification \<Rightarrow> session_effect list \<times> (request_error + 'a)" where
  "createInstance registration respond displayName region publicKeyForSSH instanceSpec =
     (let instanceName = makeValidInstanceName displayName in
      case registration of
        Inl e \<Rightarrow> ([PostAccountKeys instanceName publicKeyForSSH], Inl e)
      | Inr keyId \<Rightarrow>
          (let (effects, outcome) =
                 makeCreateInstanceRequest respond instanceName region keyId instanceSpec
           in (PostAccountKeys instanceName publicKeyForSSH # effects, outcome)))"

text \<open>The name an effect sends, if it sends one.\<close>

fun sentName :: "session_effect \<Rightarrow> string option" where
  "sentName (PostAccountKeys keyName publicKey) = Some keyName"
| "sentName (PostInstances body) = Some (bodyName body)"
| "sentName (SetTimeout ms) = None"

text \<open>
  What the retry rule of the spec looks at: an outcome is retryable when it is an error
  whose lower-cased message contains \<open>finalizing\<close>.
\<close>

definition retryable :: "request_error + 'a \<Rightarrow> bool" where
  "retryable outcome =
     (case outcome of
        Inl e \<Rightarrow> sublist ''finalizing'' (toLowerCase (message e))
      | Inr response \<Rightarrow> False)"

text \<open>\<open>n\<close> requests with the same body, a wait of 5000 ms between one and the next.\<close>

fun attempts :: "nat \<Rightarrow> instance_request \<Rightarrow> session_effect list" where
  "attempts 0 body = []"
| "attempts (Suc 0) body = [PostInstances body]"
| "attempts (Suc (Suc n)) body = PostInstances body # SetTimeout 5000 # attempts (Suc n) body"

section \<open>The long-running-operation waiters\<close>

text \<open>
  What is read of a \<^verbatim>\<open>ComputeEngineOperation\<close>: its name, its target, and
  \<^verbatim>\<open>error?.errors\<close>, the embedded error list (\<open>None\<close> when \<^verbatim>\<open>error\<close> or \<^verbatim>\<open>errors\<close> is
  absent), each entry with an optional \<^verbatim>\<open>code\<close> and \<^verbatim>\<open>message\<close>.
\<close>

record ComputeEngineOperation =
  operationName :: string
  targetId :: string
  errors :: "(string option \<times> string option) list option"

text \<open>
  The three waiters take the outcome of their awaited \<^verbatim>\<open>fetchAuthenticated\<close> call
  (\<open>Inr None\<close>: it resolved to \<^verbatim>\<open>undefined\<close>, as on a 204).

  \<^verbatim>\<open>computeEngineOperationZoneWait\<close>:
  \<^verbatim>\<open>if (operation.error?.errors) throw new GcpError(errors[0]?.code, errors[0]?.message);
  return operation;\<close> An empty array is truthy.
\<close>

definition computeEngineOperationZoneWait ::
    "error + ComputeEngineOperation option \<Rightarrow> error + ComputeEngineOperation option" where
  "computeEngineOperationZoneWait fetchResult =
     (case fetchResult of
        Inl e \<Rightarrow> Inl e
      | Inr None \<Rightarrow> Inl TypeError
      | Inr (Some operation) \<Rightarrow>
          (case errors operation of
             None \<Rightarrow> Inr (Some operation)
           | Some [] \<Rightarrow> Inl (GcpError None None)
           | Some ((code, msg) # _) \<Rightarrow> Inl (GcpError code msg)))"

text \<open>
  \<^verbatim>\<open>computeEngineOperationRegionWait\<close> and \<^verbatim>\<open>computeEngineOperationGlobalWait\<close> return
  the promise of \<^verbatim>\<open>fetchAuthenticated\<close> as it is.
\<close>

definition computeEngineOperationRegionWait ::
    "error + ComputeEngineOperation option \<Rightarrow> error + ComputeEngineOperation option" where
  "computeEngineOperationRegionWait fetchResult = fetchResult"

definition computeEngineOperationGlobalWait ::
    "error + ComputeEngineOperation option \<Rightarrow> error + ComputeEngineOperation option" where
  "computeEngineOperationGlobalWait fetchResult = fetchResult"

section \<open>The static-address check\<close>


section \<open>Locators and the zone URL\<close>

record ProjectLocator =
  projectId :: string

record ZoneLocator = ProjectLocator +
  zoneId :: string

record RegionLocator = ProjectLocator +
  regionId :: string

record InstanceLocator = ZoneLocator +
  instanceId :: string

text \<open>If \<open>lit\<close> starts \<open>s\<close>, what follows it.\<close>

fun stripLiteral :: "string \<Rightarrow> string \<Rightarrow> string option" where
  "stripLiteral [] s = Some s"
| "stripLiteral (l # lit) [] = None"
| "stripLiteral (l # lit) (c # s) = (if l = c then stripLiteral lit s else None)"

text \<open>
  A pattern of the shape \<^verbatim>\<open>lit1([^/]+)lit2([^/]+)$\<close> matched at the start of \<open>s\<close>: each
  group takes the longest run of non-slash characters (a shorter run would leave a
  non-slash before the literal or the end that must follow), and \<^verbatim>\<open>$\<close> demands the end of
  the input.
\<close>

definition matchGroups :: "string \<Rightarrow> string \<Rightarrow> string \<Rightarrow> (string \<times> string) option" where
  "matchGroups lit1 lit2 s =
     (case stripLiteral lit1 s of
        None \<Rightarrow> None
      | Some s1 \<Rightarrow>
          (let group1 = takeWhile (\<lambda>c. c \<noteq> CHR ''/'') s1;
               s2 = dropWhile (\<lambda>c. c \<noteq> CHR ''/'') s1
           in if group1 = [] then None
              else (case stripLiteral lit2 s2 of
                      None \<Rightarrow> None
                    | Some s3 \<Rightarrow>
                        (let group2 = takeWhile (\<lambda>c. c \<noteq> CHR ''/'') s3;
                             s4 = dropWhile (\<lambda>c. c \<noteq> CHR ''/'') s3
                         in if group2 = [] \<or> s4 \<noteq> [] then None
                            else Some (group1, group2)))))"

text \<open>
  \<^verbatim>\<open>zoneUrlRegExp = '/compute/v1/projects/(?<projectId>[^/]+)/zones/(?<zoneId>[^/]+)$'\<close>
  at the start of \<open>s\<close>.
\<close>

definition matchHere :: "string \<Rightarrow> (string \<times> string) option" where
  "matchHere s = matchGroups ''/compute/v1/projects/'' ''/zones/'' s"

text \<open>
  \<^verbatim>\<open>pathname.match(zoneUrlRegExp)\<close>: the pattern is not anchored at the start, so the
  start positions are tried from the left; \<open>None\<close> is \<^verbatim>\<open>null\<close>.
\<close>

fun matchZoneUrl :: "string \<Rightarrow> (string \<times> string) option" where
  "matchZoneUrl [] = matchHere []"
| "matchZoneUrl (c # s) =
     (case matchHere (c # s) of Some groups \<Rightarrow> Some groups | None \<Rightarrow> matchZoneUrl s)"

text \<open>
  \<^verbatim>\<open>parseZoneUrl(url) { const groups = new URL(url).pathname.match(zoneUrlRegExp).groups;
  return {projectId: groups['projectId'], zoneId: groups['zoneId']}; }\<close>
  \<open>pathnameOf\<close> is the platform's URL parser: the \<^verbatim>\<open>pathname\<close> of \<^verbatim>\<open>new URL(url)\<close>, \<open>None\<close>
  where the constructor throws its \<^verbatim>\<open>TypeError\<close>. Reading \<^verbatim>\<open>.groups\<close> of \<^verbatim>\<open>null\<close> is a
  \<^verbatim>\<open>TypeError\<close> too.
\<close>

definition parseZoneUrl :: "(string \<Rightarrow> string option) \<Rightarrow> string \<Rightarrow> error + ZoneLocator" where
  "parseZoneUrl pathnameOf url =
     (case pathnameOf url of
        None \<Rightarrow> Inl TypeError
      | Some pathname \<Rightarrow>
          (case matchZoneUrl pathname of
             None \<Rightarrow> Inl TypeError
           | Some (projectGroup, zoneGroup) \<Rightarrow>
               Inr \<lparr>projectId = projectGroup, zoneId = zoneGroup\<rparr>))"

text \<open>
  The pattern read as a set of strings: \<open>path\<close> ends with the two literals around two
  non-empty slash-free groups.
\<close>

definition zonePath :: "string \<Rightarrow> string \<Rightarrow> string \<Rightarrow> bool" where
  "zonePath path p z \<longleftrightarrow>
     (\<exists>before. path = before @ ''/compute/v1/projects/'' @ p @ ''/zones/'' @ z)
   \<and> p \<noteq> [] \<and> z \<noteq> [] \<and> CHR ''/'' \<notin> set p \<and> CHR ''/'' \<notin> set z"

section \<open>Deleting the host\<close>

text \<open>
  What \<^verbatim>\<open>YandexHost.delete\<close> does that can be seen from outside, in the order it does
  it: the call of the delete callback, the wait for \<^verbatim>\<open>instanceReadiness\<close>, the two
  deletion requests and the warnings.
\<close>

datatype host_effect =
    DeleteCallback
  | AwaitReadiness
  | WarnFailedSetup error
  | RequestDeleteStaticIp RegionLocator string
  | RequestDeleteInstance InstanceLocator
  | Warn string

record YandexHost =
  locator :: InstanceLocator
  yandexInstanceName :: string

text \<open>
  \<^verbatim>\<open>waitForDelete\<close>: \<^verbatim>\<open>try { await deletion; } catch (e) { if (is404(e)) { console.warn(msg404);
  return; } throw e; }\<close> The result is what is logged and the error thrown, if any.
\<close>

definition waitForDelete :: "error + 'a \<Rightarrow> string \<Rightarrow> host_effect list \<times> error option" where
  "waitForDelete deletion msg404 =
     (case deletion of
        Inr operation \<Rightarrow> ([], None)
      | Inl e \<Rightarrow> if is404 e then ([Warn msg404], None) else ([], Some e))"

text \<open>
  \<^verbatim>\<open>YandexHost.delete\<close>. \<open>regionOf\<close> is \<^verbatim>\<open>new Zone(zoneId).regionId\<close> (class \<^verbatim>\<open>Zone\<close> of
  \<^verbatim>\<open>model/yandex\<close>); \<open>readiness\<close> is how the \<^verbatim>\<open>instanceReadiness\<close> promise settles
  (\<open>Some e\<close>: rejected with \<open>e\<close>); \<open>staticIpDeletion\<close> and \<open>instanceDeletion\<close> are the
  outcomes of the two requests. The second request is only made once the first
  \<^verbatim>\<open>waitForDelete\<close> has returned. The result is the server after the callback, what
  happened in order, and the error \<^verbatim>\<open>delete()\<close> rejects with, if any.
\<close>

definition delete_host ::
    "(string \<Rightarrow> string) \<Rightarrow> YandexHost \<Rightarrow> YandexServer \<Rightarrow> error option \<Rightarrow> error + 'a \<Rightarrow> error + 'b
      \<Rightarrow> YandexServer \<times> host_effect list \<times> error option" where
  "delete_host regionOf host srv readiness staticIpDeletion instanceDeletion =
     (let srv1 = onDelete srv;
          awaited = [DeleteCallback, AwaitReadiness]
                    @ (case readiness of None \<Rightarrow> [] | Some e \<Rightarrow> [WarnFailedSetup e]);
          regionLocator = \<lparr>projectId = projectId (locator host),
                           regionId = regionOf (zoneId (locator host))\<rparr>;
          (warned1, thrown1) =
             waitForDelete staticIpDeletion ''Deleted server did not have a static IP'';
          first = awaited @ [RequestDeleteStaticIp regionLocator (yandexInstanceName host)]
                  @ warned1
      in case thrown1 of
           Some e \<Rightarrow> (srv1, first, Some e)
         | None \<Rightarrow>
             (let (warned2, thrown2) =
                    waitForDelete instanceDeletion ''No instance for deleted server''
              in (srv1, first @ [RequestDeleteInstance (locator host)] @ warned2, thrown2)))"

text \<open>Whether a deletion step counts as done: it succeeded or answered 404.\<close>

definition tolerated :: "error + 'a \<Rightarrow> bool" where
  "tolerated outcome = (case outcome of Inr operation \<Rightarrow> True | Inl e \<Rightarrow> is404 e)"

definition isRequest :: "host_effect \<Rightarrow> bool" where
  "isRequest eff =
     (case eff of RequestDeleteStaticIp r n \<Rightarrow> True | RequestDeleteInstance l \<Rightarrow> True | _ \<Rightarrow> False)"

text \<open>
  A round in which no deletion request arrives and the fetch returns the given entries,
  and a provisioning attempt in which creation and the static address succeed and no
  deletion request arrives before the poll loop.
\<close>

definition quietRound :: "(string \<times> string) list \<Rightarrow> poll_round" where
  "quietRound entries =
     \<lparr>deleteWhileFetching = False,
      fetched = Inr (Some (GuestAttributes (Some entries))),
      deleteWhileSleeping = False\<rparr>"

definition smoothProvisioning :: "poll_round list \<Rightarrow> provisioning" where
  "smoothProvisioning rs =
     \<lparr>deleteWhileCreating = False, instanceCreation = None, deleteWhileAllocating = False,
      staticIpCheck = Inr True, ipPromotion = None, rounds = rs\<rparr>"

section \<open>Invariants of the state machine\<close>

text \<open>
  What holds of the server throughout: the stream is closed exactly when it holds a
  terminal state, every step of the recorded values is an \<open>advance\<close>, no entry comes
  after a terminal one, and the last recorded value is the one held.
\<close>

definition consistent :: "bool \<Rightarrow> YandexServer \<Rightarrow> bool" where
  "consistent strict srv \<longleftrightarrow>
     vs_isClosed (installState srv) = isFinal (vs_get (installState srv))
   \<and> stepwise strict (recorded srv)
   \<and> terminalOnlyLast (recorded srv)
   \<and> (if recorded srv = [] then vs_get (installState srv) = UNKNOWN
       else last (recorded srv) = vs_get (installState srv))"

definition polling :: "YandexServer \<Rightarrow> bool" where
  "polling srv \<longleftrightarrow>
     vs_get (installState srv) = IP_ALLOCATED
   \<or> vs_get (installState srv) = INSTANCE_RUNNING
   \<or> vs_get (installState srv) = CERTIFICATE_CREATED"

section \<open>Properties of the stream and of deletion\<close>

lemma setInstallState_closed:
  "vs_isClosed (installState srv) \<Longrightarrow> setInstallState st srv = None"
  by (simp add: setInstallState_def vs_set_def vs_isClosed_def)

lemma setInstallState_open:
  "\<not> vs_isClosed (installState srv) \<Longrightarrow>
   setInstallState st srv =
     Some (srv\<lparr>installState := \<lparr>held = st, closed = isFinal st\<rparr>,
               recorded := recorded srv @ [st]\<rparr>)"
  by (simp add: setInstallState_def vs_set_def vs_isClosed_def vs_close_def)

lemma onDelete_open:
  "\<not> vs_isClosed (installState srv) \<Longrightarrow>
   onDelete srv = srv\<lparr>installState := \<lparr>held = CANCELED, closed = True\<rparr>,
                      recorded := recorded srv @ [CANCELED]\<rparr>"
  by (simp add: onDelete_def setInstallState_open isFinal_def)

lemma onDelete_closed: "vs_isClosed (installState srv) \<Longrightarrow> onDelete srv = srv"
  by (simp add: onDelete_def)

lemma reachable_closed_iff_final:
  "reachable srv \<Longrightarrow> vs_isClosed (installState srv) = isFinal (vs_get (installState srv))"
proof (induction rule: reachable.induct)
  case fresh
  show ?case
    by (simp add: newYandexServer_def vs_new_def vs_isClosed_def vs_get_def isFinal_def)
next
  case (set_state srv st srv')
  then show ?case
    by (cases "vs_isClosed (installState srv)")
       (auto simp: setInstallState_closed setInstallState_open vs_isClosed_def vs_get_def)
next
  case (set_api srv api)
  then show ?case by (simp add: setManagementApi_def)
next
  case (deleted srv)
  then show ?case
    by (cases "vs_isClosed (installState srv)")
       (auto simp: onDelete_open onDelete_closed vs_isClosed_def vs_get_def isFinal_def)
qed

text \<open>
  C5. On every reachable server whose state is not terminal, a deletion request
  (\<open>onDelete\<close>) records \<open>CANCELED\<close> and closes the stream, after which the progress
  sequence ends by throwing \<open>ServerInstallCanceledError\<close> whatever it had yielded; on
  every reachable server whose state is already terminal, \<open>onDelete\<close> changes nothing.
\<close>

theorem onDelete_cancels_unless_terminal:
  assumes "reachable srv"
  shows "(\<not> isFinal (vs_get (installState srv)) \<longrightarrow>
            vs_get (installState (onDelete srv)) = CANCELED
          \<and> vs_isClosed (installState (onDelete srv))
          \<and> recorded (onDelete srv) = recorded srv @ [CANCELED]
          \<and> (\<forall>watched. snd (monitorInstallProgress watched (onDelete srv))
                         = Some ServerInstallCanceledError))
       \<and> (isFinal (vs_get (installState srv)) \<longrightarrow> onDelete srv = srv)"
proof (cases "vs_isClosed (installState srv)")
  case True
  with assms have "isFinal (vs_get (installState srv))"
    by (simp add: reachable_closed_iff_final)
  with True show ?thesis by (simp add: onDelete_closed)
next
  case False
  with assms have "\<not> isFinal (vs_get (installState srv))"
    by (simp add: reachable_closed_iff_final)
  with False show ?thesis
    by (simp add: onDelete_open vs_get_def vs_isClosed_def monitorInstallProgress_def Let_def)
qed

theorem onDelete_cancels_unless_terminal_witness:
  "vs_get (installState (onDelete newYandexServer)) = CANCELED
   \<and> vs_isClosed (installState (onDelete newYandexServer))
   \<and> snd (monitorInstallProgress [UNKNOWN, CANCELED] (onDelete newYandexServer))
       = Some ServerInstallCanceledError
   \<and> vs_get (installState (onDelete (onDelete newYandexServer))) = CANCELED
   \<and> onDelete (onDelete newYandexServer) = onDelete newYandexServer"
proof -
  have open_fresh: "\<not> isFinal (vs_get (installState newYandexServer))"
    by (simp add: newYandexServer_def vs_new_def vs_get_def isFinal_def)
  have r1: "reachable newYandexServer"
    by (rule reachable.fresh)
  have r2: "reachable (onDelete newYandexServer)"
    by (rule reachable.deleted [OF r1])
  from onDelete_cancels_unless_terminal [OF r1] open_fresh
  have first: "vs_get (installState (onDelete newYandexServer)) = CANCELED
      \<and> vs_isClosed (installState (onDelete newYandexServer))
      \<and> snd (monitorInstallProgress [UNKNOWN, CANCELED] (onDelete newYandexServer))
          = Some ServerInstallCanceledError"
    by blast
  then have "isFinal (vs_get (installState (onDelete newYandexServer)))"
    by (simp add: isFinal_def)
  with onDelete_cancels_unless_terminal [OF r2]
  have "onDelete (onDelete newYandexServer) = onDelete newYandexServer"
    by blast
  with first show ?thesis by simp
qed

text \<open>
  C6. Once the stream of a reachable server is closed (which is when the watch ends), the
  state read back is one of the three terminal states and the progress sequence ends
  accordingly: after \<open>FAILED\<close> it throws \<open>ServerInstallFailedError\<close>, after \<open>CANCELED\<close> it
  throws \<open>ServerInstallCanceledError\<close>, and after \<open>COMPLETED\<close> it throws nothing and its
  last yielded value is the completion fraction 1.
\<close>

theorem monitorInstallProgress_terminal:
  assumes "reachable srv" and "vs_isClosed (installState srv)"
  shows "(vs_get (installState srv) = FAILED
            \<and> monitorInstallProgress watched srv
                = (map getCompletionFraction watched, Some (ServerInstallFailedError [])))
       \<or> (vs_get (installState srv) = CANCELED
            \<and> monitorInstallProgress watched srv
                = (map getCompletionFraction watched, Some ServerInstallCanceledError))
       \<or> (vs_get (installState srv) = COMPLETED
            \<and> monitorInstallProgress watched srv
                = (map getCompletionFraction watched @ [1], None)
            \<and> last (fst (monitorInstallProgress watched srv)) = 1)"
proof -
  from assms have "isFinal (vs_get (installState srv))"
    by (simp add: reachable_closed_iff_final)
  then consider "vs_get (installState srv) = FAILED"
    | "vs_get (installState srv) = CANCELED"
    | "vs_get (installState srv) = COMPLETED"
    by (auto simp: isFinal_def)
  then show ?thesis
    by cases (simp_all add: monitorInstallProgress_def Let_def)
qed

theorem monitorInstallProgress_terminal_witness:
  "monitorInstallProgress [IP_ALLOCATED, COMPLETED]
      (the (setInstallState COMPLETED newYandexServer))
    = ([0.14, 1, 1], None)
   \<and> monitorInstallProgress [UNKNOWN]
      (the (setInstallState FAILED newYandexServer))
    = ([0.01], Some (ServerInstallFailedError []))"
proof -
  let ?c = "the (setInstallState COMPLETED newYandexServer)"
  let ?f = "the (setInstallState FAILED newYandexServer)"
  have open_fresh: "\<not> vs_isClosed (installState newYandexServer)"
    by (simp add: newYandexServer_def vs_new_def vs_isClosed_def)
  have rc: "reachable ?c"
    by (rule reachable.set_state [OF reachable.fresh, of COMPLETED])
       (simp add: setInstallState_open [OF open_fresh])
  have rf: "reachable ?f"
    by (rule reachable.set_state [OF reachable.fresh, of FAILED])
       (simp add: setInstallState_open [OF open_fresh])
  have cc: "vs_isClosed (installState ?c)" "vs_get (installState ?c) = COMPLETED"
    by (simp_all add: setInstallState_open [OF open_fresh] vs_isClosed_def vs_get_def isFinal_def)
  have cf: "vs_isClosed (installState ?f)" "vs_get (installState ?f) = FAILED"
    by (simp_all add: setInstallState_open [OF open_fresh] vs_isClosed_def vs_get_def isFinal_def)
  from monitorInstallProgress_terminal [OF rc cc(1), of "[IP_ALLOCATED, COMPLETED]"] cc(2)
  have "monitorInstallProgress [IP_ALLOCATED, COMPLETED] ?c = ([0.14, 1, 1], None)"
    by simp
  moreover
  from monitorInstallProgress_terminal [OF rf cf(1), of "[UNKNOWN]"] cf(2)
  have "monitorInstallProgress [UNKNOWN] ?f = ([0.01], Some (ServerInstallFailedError []))"
    by simp
  ultimately show ?thesis by simp
qed

section \<open>The poll loop keeps the invariants\<close>

lemma getOutline_items:
  "getOutlineGuestAttributes (Some (GuestAttributes (Some its))) = map_of (rev its)"
proof -
  have "foldl (\<lambda>result (k, v). result(k \<mapsto> v)) m its = m ++ map_of (rev its)" for m :: "string \<rightharpoonup> string"
    by (induction its arbitrary: m) (auto simp: map_add_upd_left)
  then show ?thesis by (simp add: getOutlineGuestAttributes_def)
qed

lemma terminalOnlyLast_butlast:
  "terminalOnlyLast xs \<longleftrightarrow> list_all (\<lambda>st. \<not> isFinal st) (butlast xs)"
  by (induction xs rule: terminalOnlyLast.induct) auto

lemma terminalOnlyLast_snoc:
  "terminalOnlyLast xs \<Longrightarrow> (xs \<noteq> [] \<Longrightarrow> \<not> isFinal (last xs)) \<Longrightarrow> terminalOnlyLast (xs @ [st])"
  by (cases xs rule: rev_cases) (auto simp: terminalOnlyLast_butlast butlast_append)

lemma stepwise_snoc:
  "stepwise strict xs \<Longrightarrow> (xs \<noteq> [] \<Longrightarrow> advance strict (last xs) y) \<Longrightarrow>
   stepwise strict (xs @ [y])"
  by (induction strict xs rule: stepwise.induct) (auto split: if_splits)

lemma stepwise_strict_sorted: "stepwise True xs \<Longrightarrow> sorted (map state_num xs)"
proof (induction xs)
  case Nil
  then show ?case by simp
next
  case (Cons a xs)
  show ?case
  proof (cases xs)
    case Nil
    then show ?thesis by simp
  next
    case (Cons b rest)
    with Cons.prems have ab: "state_num a \<le> state_num b" and tl: "stepwise True xs"
      by (simp_all add: advance_def)
    from Cons.IH [OF tl] have s: "sorted (map state_num xs)" .
    with Cons have "\<forall>y \<in> set (map state_num xs). state_num b \<le> y"
      by auto
    with ab have "\<forall>y \<in> set (map state_num xs). state_num a \<le> y"
      by (meson order_trans)
    with s show ?thesis by simp
  qed
qed

lemma not_final_le: "\<not> isFinal st \<Longrightarrow> state_num st \<le> 5"
  by (cases st) (auto simp: isFinal_def)

lemma consistent_set:
  assumes c: "consistent strict srv" and o: "\<not> vs_isClosed (installState srv)"
    and le: "advance strict (vs_get (installState srv)) st"
  shows "consistent strict (srv\<lparr>installState := \<lparr>held = st, closed = isFinal st\<rparr>,
                                recorded := recorded srv @ [st]\<rparr>)"
proof -
  from c o have nf: "\<not> isFinal (vs_get (installState srv))"
    by (simp add: consistent_def)
  from c have l: "recorded srv \<noteq> [] \<Longrightarrow> last (recorded srv) = vs_get (installState srv)"
    by (simp add: consistent_def split: if_splits)
  from c have "stepwise strict (recorded srv)"
    by (simp add: consistent_def)
  then have s: "stepwise strict (recorded srv @ [st])"
    by (rule stepwise_snoc) (simp add: l le)
  from c have "terminalOnlyLast (recorded srv)"
    by (simp add: consistent_def)
  then have t: "terminalOnlyLast (recorded srv @ [st])"
    by (rule terminalOnlyLast_snoc) (simp add: l nf)
  from s t show ?thesis
    by (simp add: consistent_def vs_isClosed_def vs_get_def)
qed

lemma consistent_api: "consistent strict (setManagementApi api srv) = consistent strict srv"
  by (simp add: consistent_def setManagementApi_def)

lemma consistent_onDelete: "consistent strict srv \<Longrightarrow> consistent strict (onDelete srv)"
proof (cases "vs_isClosed (installState srv)")
  case True
  then show "consistent strict srv \<Longrightarrow> ?thesis" by (simp add: onDelete_closed)
next
  case False
  assume c: "consistent strict srv"
  with False have "\<not> isFinal (vs_get (installState srv))" by (simp add: consistent_def)
  then have "advance strict (vs_get (installState srv)) CANCELED"
    using not_final_le by (fastforce simp: advance_def)
  from consistent_set [OF c False this] False show ?thesis
    by (simp add: onDelete_open isFinal_def)
qed

lemma consistent_onRejected:
  "consistent strict srv \<Longrightarrow> consistent strict (fst (onRejected srv))"
proof (cases "vs_isClosed (installState srv)")
  case True
  then show "consistent strict srv \<Longrightarrow> ?thesis"
    by (simp add: onRejected_def setInstallState_closed)
next
  case False
  assume c: "consistent strict srv"
  with False have "\<not> isFinal (vs_get (installState srv))" by (simp add: consistent_def)
  then have "advance strict (vs_get (installState srv)) FAILED"
    using not_final_le by (fastforce simp: advance_def)
  from consistent_set [OF c False this] False show ?thesis
    by (simp add: onRejected_def setInstallState_open isFinal_def)
qed

lemma onDelete_closes: "vs_isClosed (installState (onDelete srv))"
  by (cases "vs_isClosed (installState srv)")
     (simp_all add: onDelete_closed onDelete_open vs_isClosed_def)

lemma pollInstallState_closed:
  "vs_isClosed (installState srv) \<Longrightarrow> pollInstallState atob rs srv = srv"
  by (cases rs) simp_all

lemma pollOnce_closed:
  assumes "vs_isClosed (installState srv)" "pollOnce atob m srv = (srv1, ex)"
  shows "vs_isClosed (installState srv1) \<and> consistent strict srv1 = consistent strict srv"
  using assms
  by (auto simp: pollOnce_def setInstallState_closed setManagementApi_def Let_def consistent_def
           split: if_splits option.splits)

lemma pollOnce_open_eq:
  assumes o: "\<not> vs_isClosed (installState srv)"
  shows "pollOnce atob m srv =
     (if has m ''apiUrl'' \<and> has m ''certSha256''
      then (case atob (the (m ''certSha256'')) of
              None \<Rightarrow> (srv, Throw)
            | Some fingerprint \<Rightarrow>
                (srv\<lparr>managementApi := Some (makePathApiClient (the (m ''apiUrl'')) fingerprint),
                      installState := \<lparr>held = COMPLETED, closed = True\<rparr>,
                      recorded := recorded srv @ [COMPLETED]\<rparr>, Break))
      else if has m ''install-error''
      then (srv\<lparr>installState := \<lparr>held = FAILED, closed = True\<rparr>,
                 recorded := recorded srv @ [FAILED]\<rparr>, Break)
      else if has m ''certSha256''
      then (srv\<lparr>installState := \<lparr>held = CERTIFICATE_CREATED, closed = False\<rparr>,
                 recorded := recorded srv @ [CERTIFICATE_CREATED]\<rparr>, Sleep)
      else if has m ''install-started''
      then (srv\<lparr>installState := \<lparr>held = INSTANCE_RUNNING, closed = False\<rparr>,
                 recorded := recorded srv @ [INSTANCE_RUNNING]\<rparr>, Sleep)
      else (srv, Sleep))"
proof -
  have oa: "\<not> vs_isClosed (installState (setManagementApi api srv))" for api
    using o by (simp add: setManagementApi_def)
  have sa: "setInstallState COMPLETED (setManagementApi api srv) =
      Some (srv\<lparr>managementApi := Some api,
                installState := \<lparr>held = COMPLETED, closed = True\<rparr>,
                recorded := recorded srv @ [COMPLETED]\<rparr>)" for api
    by (simp add: setInstallState_open [OF oa] isFinal_def) (simp add: setManagementApi_def)
  show ?thesis
    by (auto simp: pollOnce_def has_def setInstallState_open [OF o] sa
          Let_def isFinal_def split: option.splits)
qed

lemma pollOnce_open:
  assumes c: "consistent strict srv" and o: "\<not> vs_isClosed (installState srv)"
    and p: "polling srv"
    and h: "strict \<Longrightarrow> vs_get (installState srv) = CERTIFICATE_CREATED \<Longrightarrow> \<not> showsStartedOnly m"
    and r: "pollOnce atob m srv = (srv1, ex)"
  shows "consistent strict srv1"
    and "\<not> vs_isClosed (installState srv1) \<Longrightarrow> polling srv1"
    and "\<not> vs_isClosed (installState srv1) \<Longrightarrow>
           vs_get (installState srv1) = CERTIFICATE_CREATED \<Longrightarrow>
           showsCertificate m \<or> srv1 = srv"
proof -
  have le5: "advance strict (vs_get (installState srv)) COMPLETED"
    using p by (auto simp: polling_def advance_def)
  have le6: "advance strict (vs_get (installState srv)) FAILED"
    using p by (auto simp: polling_def advance_def)
  have le4: "advance strict (vs_get (installState srv)) CERTIFICATE_CREATED"
    using p by (auto simp: polling_def advance_def)
  have le3: "showsStartedOnly m \<Longrightarrow> advance strict (vs_get (installState srv)) INSTANCE_RUNNING"
    using p h by (cases strict) (auto simp: polling_def advance_def)
  have api: "consistent strict (s\<lparr>managementApi := a\<rparr>) = consistent strict s" for s a
    by (simp add: consistent_def)
  have compl: "consistent strict (srv\<lparr>managementApi := a,
                installState := \<lparr>held = COMPLETED, closed = True\<rparr>,
                recorded := recorded srv @ [COMPLETED]\<rparr>)" for a
    using consistent_set [of strict "srv\<lparr>managementApi := a\<rparr>" COMPLETED] c o le5
    by (simp add: api isFinal_def)
  note sets = compl consistent_set [OF c o le6]
    consistent_set [OF c o le4] consistent_set [OF c o le3]
  from r have eq: "(srv1, ex) = pollOnce atob m srv" by simp
  show "consistent strict srv1"
    using eq c sets
    by (auto simp: pollOnce_open_eq [OF o] isFinal_def api showsStartedOnly_def
             split: if_splits option.splits)
  show "polling srv1" if "\<not> vs_isClosed (installState srv1)"
    using eq p that
    by (auto simp: pollOnce_open_eq [OF o] polling_def vs_get_def vs_isClosed_def
             split: if_splits option.splits)
  show "showsCertificate m \<or> srv1 = srv"
    if "\<not> vs_isClosed (installState srv1)" "vs_get (installState srv1) = CERTIFICATE_CREATED"
    using eq that
    by (auto simp: pollOnce_open_eq [OF o] vs_get_def vs_isClosed_def showsCertificate_def
             split: if_splits option.splits)
qed

lemma noStartedOnlyAfterCertificate_tail:
  "noStartedOnlyAfterCertificate (r # rs) \<Longrightarrow> noStartedOnlyAfterCertificate rs"
  by simp

lemma noStartedOnlyAfterCertificate_head:
  "noStartedOnlyAfterCertificate (r # rs) \<Longrightarrow> showsCertificate (snapshot r) \<Longrightarrow>
   list_all (\<lambda>r'. \<not> showsStartedOnly (snapshot r')) rs"
  by simp

lemma pollInstallState_consistent:
  assumes "consistent strict srv" and "strict \<Longrightarrow> noStartedOnlyAfterCertificate rs"
    and "\<not> vs_isClosed (installState srv) \<Longrightarrow> polling srv"
    and "strict \<Longrightarrow> \<not> vs_isClosed (installState srv) \<Longrightarrow>
           vs_get (installState srv) = CERTIFICATE_CREATED \<Longrightarrow>
           list_all (\<lambda>r'. \<not> showsStartedOnly (snapshot r')) rs"
  shows "consistent strict (pollInstallState atob rs srv)"
  using assms
proof (induction rs arbitrary: srv)
  case Nil
  then show ?case by simp
next
  case (Cons r rs)
  show ?case
  proof (cases "vs_isClosed (installState srv)")
    case True
    with Cons.prems(1) show ?thesis by (simp add: pollInstallState_closed)
  next
    case op: False
    let ?srv0 = "if deleteWhileFetching r then onDelete srv else srv"
    obtain srv1 ex where po: "pollOnce atob (snapshot r) ?srv0 = (srv1, ex)"
      by (cases "pollOnce atob (snapshot r) ?srv0") blast
    let ?srv2 = "if deleteWhileSleeping r then onDelete srv1 else srv1"
    have res: "pollInstallState atob (r # rs) srv =
        (if ex = Sleep then pollInstallState atob rs ?srv2 else srv1)"
      using op po by (cases ex) simp_all
    have c0: "consistent strict ?srv0"
      using Cons.prems(1) by (simp add: consistent_onDelete)
    show ?thesis
    proof (cases "vs_isClosed (installState ?srv0)")
      case True
      from pollOnce_closed [OF True po, of strict] c0
      have c1: "vs_isClosed (installState srv1)" "consistent strict srv1" by simp_all
      then have "?srv2 = srv1" by (simp add: onDelete_closed)
      with c1 res show ?thesis by (simp add: pollInstallState_closed)
    next
      case False
      then have same: "?srv0 = srv"
        using onDelete_closes [of srv] by (auto split: if_splits)
      have hc: "\<not> showsStartedOnly (snapshot r)"
        if "strict" "vs_get (installState srv) = CERTIFICATE_CREATED"
        using Cons.prems(4) [OF that(1) op that(2)] by simp
      note po' = po [unfolded same]
      have f1: "consistent strict srv1"
        using pollOnce_open(1) [OF Cons.prems(1) op Cons.prems(3) [OF op] _ po'] hc by blast
      have f2: "polling srv1" if "\<not> vs_isClosed (installState srv1)"
        using pollOnce_open(2) [OF Cons.prems(1) op Cons.prems(3) [OF op] _ po'] hc that
        by blast
      have f3: "showsCertificate (snapshot r) \<or> srv1 = srv"
        if "\<not> vs_isClosed (installState srv1)"
          "vs_get (installState srv1) = CERTIFICATE_CREATED"
        using pollOnce_open(3) [OF Cons.prems(1) op Cons.prems(3) [OF op] _ po'] hc that
        by blast
      have c2: "consistent strict ?srv2"
        using f1 by (simp add: consistent_onDelete)
      have o2: "?srv2 = srv1" if "\<not> vs_isClosed (installState ?srv2)"
        using that onDelete_closes [of srv1] by (auto split: if_splits)
      have "consistent strict (pollInstallState atob rs ?srv2)"
      proof (rule Cons.IH [OF c2])
        assume strict
        then have "noStartedOnlyAfterCertificate (r # rs)"
          by (rule Cons.prems(2))
        then show "noStartedOnlyAfterCertificate rs"
          by (rule noStartedOnlyAfterCertificate_tail)
      next
        assume n: "\<not> vs_isClosed (installState ?srv2)"
        with o2 f2 show "polling ?srv2" by metis
      next
        assume st: strict and n: "\<not> vs_isClosed (installState ?srv2)"
          and ce: "vs_get (installState ?srv2) = CERTIFICATE_CREATED"
        from o2 [OF n] n ce have o1: "\<not> vs_isClosed (installState srv1)"
          and c1: "vs_get (installState srv1) = CERTIFICATE_CREATED" by simp_all
        from f3 [OF o1 c1] consider "showsCertificate (snapshot r)" | "srv1 = srv"
          by blast
        then show "list_all (\<lambda>r'. \<not> showsStartedOnly (snapshot r')) rs"
        proof cases
          case 1
          with Cons.prems(2) [OF st] show ?thesis
            by (rule noStartedOnlyAfterCertificate_head)
        next
          case 2
          with c1 have "vs_get (installState srv) = CERTIFICATE_CREATED" by simp
          from Cons.prems(4) [OF st op this] show ?thesis by simp
        qed
      qed
      with res f1 show ?thesis by simp
    qed
  qed
qed

lemma consistent_new: "consistent strict newYandexServer"
  by (simp add: consistent_def newYandexServer_def vs_new_def vs_isClosed_def vs_get_def isFinal_def)

lemma afterIpAllocated_consistent:
  assumes c: "consistent strict srv" and p: "strict \<Longrightarrow> noStartedOnlyAfterCertificate rs"
    and h: "\<not> vs_isClosed (installState srv) \<Longrightarrow> vs_get (installState srv) = INSTANCE_CREATED"
  shows "consistent strict (fst (afterIpAllocated atob rs srv))"
proof (cases "vs_isClosed (installState srv)")
  case True
  with c show ?thesis by (simp add: afterIpAllocated_def)
next
  case False
  let ?srv1 = "srv\<lparr>installState := \<lparr>held = IP_ALLOCATED, closed = isFinal IP_ALLOCATED\<rparr>,
                    recorded := recorded srv @ [IP_ALLOCATED]\<rparr>"
  have c1: "consistent strict ?srv1"
    by (rule consistent_set [OF c False]) (simp add: h [OF False] advance_def)
  have "consistent strict (pollInstallState atob rs ?srv1)"
    by (rule pollInstallState_consistent [OF c1 p])
       (simp_all add: polling_def vs_get_def)
  with False show ?thesis
    by (simp add: afterIpAllocated_def setInstallState_open)
qed

lemma instanceReadiness_consistent:
  assumes p: "strict \<Longrightarrow> noStartedOnlyAfterCertificate (rounds p)"
  shows "consistent strict (fst (instanceReadiness atob p newYandexServer))"
proof -
  define srv where "srv = (if deleteWhileCreating p then onDelete newYandexServer else newYandexServer)"
  define srv1 where "srv1 = srv\<lparr>installState := \<lparr>held = INSTANCE_CREATED, closed = isFinal INSTANCE_CREATED\<rparr>,
                      recorded := recorded srv @ [INSTANCE_CREATED]\<rparr>"
  define srv2 where "srv2 = (if deleteWhileAllocating p then onDelete srv1 else srv1)"
  have c: "consistent strict srv"
    by (simp add: srv_def consistent_new consistent_onDelete)
  have u: "\<not> vs_isClosed (installState srv) \<Longrightarrow> vs_get (installState srv) = UNKNOWN"
    using onDelete_closes [of newYandexServer]
    by (auto simp: srv_def newYandexServer_def vs_new_def vs_get_def split: if_splits)
  have unfolded: "instanceReadiness atob p newYandexServer =
       (case instanceCreation p of
          Some e \<Rightarrow> onRejected srv
        | None \<Rightarrow>
            if vs_isClosed (installState srv) then (srv, Resolved)
            else (case setInstallState INSTANCE_CREATED srv of
                    None \<Rightarrow> onRejected srv
                  | Some s1 \<Rightarrow>
                     (let s2 = (if deleteWhileAllocating p then onDelete s1 else s1) in
                      case staticIpCheck p of
                        Inl e \<Rightarrow> onRejected s2
                      | Inr True \<Rightarrow> afterIpAllocated atob (rounds p) s2
                      | Inr False \<Rightarrow>
                          (case ipPromotion p of
                             Some e \<Rightarrow> onRejected s2
                           | None \<Rightarrow> afterIpAllocated atob (rounds p) s2))))"
    unfolding instanceReadiness_def srv_def [symmetric] by (simp add: Let_def)
  show ?thesis
  proof (cases "instanceCreation p")
    case (Some e)
    with c show ?thesis by (simp add: unfolded consistent_onRejected)
  next
    case None
    show ?thesis
    proof (cases "vs_isClosed (installState srv)")
      case True
      with c None show ?thesis by (simp add: unfolded)
    next
      case False
      have c1: "consistent strict srv1"
        unfolding srv1_def
        by (rule consistent_set [OF c False]) (simp add: u [OF False] advance_def)
      then have c2: "consistent strict srv2"
        by (simp add: srv2_def consistent_onDelete)
      have h2: "\<not> vs_isClosed (installState srv2) \<Longrightarrow>
          vs_get (installState srv2) = INSTANCE_CREATED"
        using onDelete_closes [of srv1]
        by (auto simp: srv2_def srv1_def vs_get_def split: if_splits)
      note a = afterIpAllocated_consistent [OF c2 p h2]
      have "instanceReadiness atob p newYandexServer =
             (case staticIpCheck p of
                Inl e \<Rightarrow> onRejected srv2
              | Inr True \<Rightarrow> afterIpAllocated atob (rounds p) srv2
              | Inr False \<Rightarrow>
                  (case ipPromotion p of
                     Some e \<Rightarrow> onRejected srv2
                   | None \<Rightarrow> afterIpAllocated atob (rounds p) srv2))"
        using None False
        by (simp add: unfolded setInstallState_open srv1_def [symmetric] srv2_def [symmetric])
      with c2 a show ?thesis
        by (auto simp: consistent_onRejected split: option.splits sum.splits bool.splits)
    qed
  qed
qed

section \<open>The recorded sequence of states\<close>

lemmas run_defs = instanceReadiness_def afterIpAllocated_def onRejected_def pollOnce_def
  snapshot_def getGuestAttributes_def getOutline_items has_def setInstallState_def vs_set_def
  vs_isClosed_def vs_get_def vs_close_def vs_new_def newYandexServer_def onDelete_def
  setManagementApi_def makePathApiClient_def isFinal_def quietRound_def smoothProvisioning_def
  Let_def

text \<open>
  C1 (as amended). Take any provisioning attempt: any outcomes of creation and of the
  static address, any guest-attribute snapshots (failed fetches among them), deletion
  requests at any suspension point, and a deletion request at the end or none. In every
  case each value the stream records is at least the one before it in the enum's order
  (which on \<open>UNKNOWN\<close> .. \<open>COMPLETED\<close> is the order of progression), but for one step:
  \<open>INSTANCE_RUNNING\<close> may be recorded right after \<open>CERTIFICATE_CREATED\<close>. In every case no
  value is recorded after a terminal one, and once the state held is terminal every
  further write is refused and the poll loop and \<open>onDelete\<close> leave the server as it is.
  And the recorded values are non-decreasing throughout whenever no snapshot with
  \<open>install-started\<close> but neither \<open>certSha256\<close> nor \<open>install-error\<close> comes after one with
  \<open>certSha256\<close> but neither \<open>apiUrl\<close> nor \<open>install-error\<close>.
\<close>

theorem recorded_states_nondecreasing:
  "stepwise False (recorded (fst (instanceReadiness atob p newYandexServer)))
   \<and> stepwise False (recorded (onDelete (fst (instanceReadiness atob p newYandexServer))))
   \<and> terminalOnlyLast (recorded (fst (instanceReadiness atob p newYandexServer)))
   \<and> terminalOnlyLast (recorded (onDelete (fst (instanceReadiness atob p newYandexServer))))
   \<and> (isFinal (vs_get (installState (fst (instanceReadiness atob p newYandexServer)))) \<longrightarrow>
        (\<forall>st. setInstallState st (fst (instanceReadiness atob p newYandexServer)) = None)
      \<and> (\<forall>rs. pollInstallState atob rs (fst (instanceReadiness atob p newYandexServer))
                = fst (instanceReadiness atob p newYandexServer))
      \<and> onDelete (fst (instanceReadiness atob p newYandexServer))
          = fst (instanceReadiness atob p newYandexServer))
   \<and> (noStartedOnlyAfterCertificate (rounds p) \<longrightarrow>
        sorted (map state_num (recorded (fst (instanceReadiness atob p newYandexServer))))
      \<and> sorted (map state_num
           (recorded (onDelete (fst (instanceReadiness atob p newYandexServer))))))"
proof -
  let ?srv = "fst (instanceReadiness atob p newYandexServer)"
  have c: "consistent False ?srv"
    by (rule instanceReadiness_consistent) simp
  then have d: "consistent False (onDelete ?srv)"
    by (rule consistent_onDelete)
  have "vs_isClosed (installState ?srv)" if "isFinal (vs_get (installState ?srv))"
    using c that by (simp add: consistent_def)
  then have t: "isFinal (vs_get (installState ?srv)) \<longrightarrow>
            (\<forall>st. setInstallState st ?srv = None)
          \<and> (\<forall>rs. pollInstallState atob rs ?srv = ?srv)
          \<and> onDelete ?srv = ?srv"
    by (simp add: setInstallState_closed pollInstallState_closed onDelete_closed)
  have s: "sorted (map state_num (recorded ?srv))
      \<and> sorted (map state_num (recorded (onDelete ?srv)))"
    if n: "noStartedOnlyAfterCertificate (rounds p)"
  proof -
    have c': "consistent True ?srv"
      by (rule instanceReadiness_consistent) (rule n)
    then have "consistent True (onDelete ?srv)"
      by (rule consistent_onDelete)
    with c' show ?thesis
      by (simp add: consistent_def stepwise_strict_sorted)
  qed
  from c d t s show ?thesis
    unfolding consistent_def by blast
qed

text \<open>
  C1 as stated fails: the loop writes the milestone of the current snapshot without
  comparing it to the state held, so a poll that sees \<open>certSha256\<close> followed by a poll
  that sees only \<open>install-started\<close> records \<open>CERTIFICATE_CREATED\<close> and then
  \<open>INSTANCE_RUNNING\<close>.
\<close>

theorem cert_then_started_regresses:
  "recorded (fst (instanceReadiness (map_of [])
      (smoothProvisioning [quietRound [(''certSha256'', ''QUJD'')],
                           quietRound [(''install-started'', ''true'')]])
      newYandexServer))
   = [INSTANCE_CREATED, IP_ALLOCATED, CERTIFICATE_CREATED, INSTANCE_RUNNING]
   \<and> \<not> sorted (map state_num (recorded (fst (instanceReadiness (map_of [])
      (smoothProvisioning [quietRound [(''certSha256'', ''QUJD'')],
                           quietRound [(''install-started'', ''true'')]])
      newYandexServer))))"
  by (simp add: run_defs)

text \<open>
  The theorem at two runs. In the first, the fetch fails (a 500) between a snapshot with
  \<open>certSha256\<close> and the one that completes the installation. The second is the run of
  the counterexample, where only the unconditional part applies.
\<close>

theorem recorded_states_nondecreasing_witness:
  "noStartedOnlyAfterCertificate
     [quietRound [(''install-started'', ''true'')],
      quietRound [(''install-started'', ''true''), (''certSha256'', ''QUJD'')],
      \<lparr>deleteWhileFetching = False,
       fetched = Inl (HttpError 500 ''Internal Server Error''),
       deleteWhileSleeping = False\<rparr>,
      quietRound [(''install-started'', ''true''), (''certSha256'', ''QUJD''),
                  (''apiUrl'', ''https://10.0.0.1/x'')]]
   \<and> recorded (fst (instanceReadiness (map_of [(''QUJD'', ''ABC'')])
        (smoothProvisioning
           [quietRound [(''install-started'', ''true'')],
            quietRound [(''install-started'', ''true''), (''certSha256'', ''QUJD'')],
            \<lparr>deleteWhileFetching = False,
             fetched = Inl (HttpError 500 ''Internal Server Error''),
             deleteWhileSleeping = False\<rparr>,
            quietRound [(''install-started'', ''true''), (''certSha256'', ''QUJD''),
                        (''apiUrl'', ''https://10.0.0.1/x'')]])
        newYandexServer))
     = [INSTANCE_CREATED, IP_ALLOCATED, INSTANCE_RUNNING, CERTIFICATE_CREATED, COMPLETED]
   \<and> sorted (map state_num
        (recorded (fst (instanceReadiness (map_of [(''QUJD'', ''ABC'')])
        (smoothProvisioning
           [quietRound [(''install-started'', ''true'')],
            quietRound [(''install-started'', ''true''), (''certSha256'', ''QUJD'')],
            \<lparr>deleteWhileFetching = False,
             fetched = Inl (HttpError 500 ''Internal Server Error''),
             deleteWhileSleeping = False\<rparr>,
            quietRound [(''install-started'', ''true''), (''certSha256'', ''QUJD''),
                        (''apiUrl'', ''https://10.0.0.1/x'')]])
        newYandexServer))))
   \<and> onDelete (fst (instanceReadiness (map_of [(''QUJD'', ''ABC'')])
        (smoothProvisioning
           [quietRound [(''install-started'', ''true'')],
            quietRound [(''install-started'', ''true''), (''certSha256'', ''QUJD'')],
            \<lparr>deleteWhileFetching = False,
             fetched = Inl (HttpError 500 ''Internal Server Error''),
             deleteWhileSleeping = False\<rparr>,
            quietRound [(''install-started'', ''true''), (''certSha256'', ''QUJD''),
                        (''apiUrl'', ''https://10.0.0.1/x'')]])
        newYandexServer))
     = fst (instanceReadiness (map_of [(''QUJD'', ''ABC'')])
        (smoothProvisioning
           [quietRound [(''install-started'', ''true'')],
            quietRound [(''install-started'', ''true''), (''certSha256'', ''QUJD'')],
            \<lparr>deleteWhileFetching = False,
             fetched = Inl (HttpError 500 ''Internal Server Error''),
             deleteWhileSleeping = False\<rparr>,
            quietRound [(''install-started'', ''true''), (''certSha256'', ''QUJD''),
                        (''apiUrl'', ''https://10.0.0.1/x'')]])
        newYandexServer)
   \<and> stepwise False (recorded (fst (instanceReadiness (map_of [])
        (smoothProvisioning [quietRound [(''certSha256'', ''QUJD'')],
                             quietRound [(''install-started'', ''true'')]])
        newYandexServer)))
   \<and> terminalOnlyLast (recorded (onDelete (fst (instanceReadiness (map_of [])
        (smoothProvisioning [quietRound [(''certSha256'', ''QUJD'')],
                             quietRound [(''install-started'', ''true'')]])
        newYandexServer))))"
proof -
  let ?rs = "[quietRound [(''install-started'', ''true'')],
            quietRound [(''install-started'', ''true''), (''certSha256'', ''QUJD'')],
            \<lparr>deleteWhileFetching = False,
             fetched = Inl (HttpError 500 ''Internal Server Error''),
             deleteWhileSleeping = False\<rparr>,
            quietRound [(''install-started'', ''true''), (''certSha256'', ''QUJD''),
                        (''apiUrl'', ''https://10.0.0.1/x'')]]"
  let ?a = "map_of [(''QUJD'', ''ABC'')]"
  let ?srv = "fst (instanceReadiness ?a (smoothProvisioning ?rs) newYandexServer)"
  let ?bad = "smoothProvisioning [quietRound [(''certSha256'', ''QUJD'')],
                             quietRound [(''install-started'', ''true'')]]"
  have np: "noStartedOnlyAfterCertificate ?rs"
    by (simp add: snapshot_def getGuestAttributes_def getOutline_items has_def quietRound_def
          showsCertificate_def showsStartedOnly_def getOutlineGuestAttributes_def)
  then have np': "noStartedOnlyAfterCertificate (rounds (smoothProvisioning ?rs))"
    by (simp add: smoothProvisioning_def)
  have ev: "recorded ?srv
     = [INSTANCE_CREATED, IP_ALLOCATED, INSTANCE_RUNNING, CERTIFICATE_CREATED, COMPLETED]"
    by (simp add: run_defs getOutlineGuestAttributes_def)
  have fin: "isFinal (vs_get (installState ?srv))"
    by (simp add: run_defs getOutlineGuestAttributes_def)
  note t = recorded_states_nondecreasing [of ?a "smoothProvisioning ?rs"]
  from t np' have so: "sorted (map state_num (recorded ?srv))" by blast
  from t fin have od: "onDelete ?srv = ?srv" by blast
  note u = recorded_states_nondecreasing [of "map_of []" ?bad]
  from u have b1: "stepwise False (recorded (fst (instanceReadiness (map_of []) ?bad newYandexServer)))"
    by blast
  from u have b2: "terminalOnlyLast
      (recorded (onDelete (fst (instanceReadiness (map_of []) ?bad newYandexServer))))"
    by blast
  from np ev so od b1 b2 show ?thesis by (intro conjI)
qed

section \<open>One iteration of the poll loop\<close>

text \<open>
  C2 (as amended). On an open stream, one pass of the loop body decides by this
  priority: \<open>apiUrl\<close> and \<open>certSha256\<close> both present (and the fingerprint decodable) give
  \<open>COMPLETED\<close>, the management handle made from that URL and the decoded fingerprint,
  and the end of the loop; otherwise \<open>install-error\<close> gives \<open>FAILED\<close> and the end of the
  loop, whatever else is present; otherwise \<open>certSha256\<close> gives \<open>CERTIFICATE_CREATED\<close>;
  otherwise \<open>install-started\<close> gives \<open>INSTANCE_RUNNING\<close>.
\<close>

theorem pollOnce_priority:
  assumes "\<not> vs_isClosed (installState srv)"
  shows "(\<forall>apiUrl certSha256 fingerprint.
            m ''apiUrl'' = Some apiUrl \<and> m ''certSha256'' = Some certSha256
              \<and> atob certSha256 = Some fingerprint \<longrightarrow>
            pollOnce atob m srv =
              (srv\<lparr>installState := \<lparr>held = COMPLETED, closed = True\<rparr>,
                    managementApi := Some (makePathApiClient apiUrl fingerprint),
                    recorded := recorded srv @ [COMPLETED]\<rparr>, Break))
       \<and> (has m ''install-error'' \<and> \<not> (has m ''apiUrl'' \<and> has m ''certSha256'') \<longrightarrow>
            pollOnce atob m srv =
              (srv\<lparr>installState := \<lparr>held = FAILED, closed = True\<rparr>,
                    recorded := recorded srv @ [FAILED]\<rparr>, Break))
       \<and> (has m ''certSha256'' \<and> \<not> has m ''apiUrl'' \<and> \<not> has m ''install-error'' \<longrightarrow>
            pollOnce atob m srv =
              (srv\<lparr>installState := \<lparr>held = CERTIFICATE_CREATED, closed = False\<rparr>,
                    recorded := recorded srv @ [CERTIFICATE_CREATED]\<rparr>, Sleep))
       \<and> (has m ''install-started'' \<and> \<not> has m ''certSha256'' \<and> \<not> has m ''install-error'' \<longrightarrow>
            pollOnce atob m srv =
              (srv\<lparr>installState := \<lparr>held = INSTANCE_RUNNING, closed = False\<rparr>,
                    recorded := recorded srv @ [INSTANCE_RUNNING]\<rparr>, Sleep))"
  by (auto simp: pollOnce_open_eq [OF assms] has_def)

text \<open>
  C2 as stated fails: \<open>install-error\<close> does not win over a snapshot that also has both
  \<open>apiUrl\<close> and \<open>certSha256\<close>; the first test of the loop body takes it to \<open>COMPLETED\<close>.
  And with both keys present the state only becomes \<open>COMPLETED\<close> when \<^verbatim>\<open>atob\<close> accepts the
  fingerprint: where it throws (here on \<^verbatim>\<open>%\<close>), the loop is left with the state as it was.
\<close>

theorem install_error_with_apiUrl_and_cert_completes:
  "pollOnce (map_of [(''QUJD'', ''ABC'')])
     (getOutlineGuestAttributes (Some (GuestAttributes (Some
        [(''install-error'', ''1''), (''apiUrl'', ''https://10.0.0.1/x''),
         (''certSha256'', ''QUJD'')]))))
     (fst (instanceReadiness (map_of []) (smoothProvisioning []) newYandexServer))
   = (\<lparr>installState = \<lparr>held = COMPLETED, closed = True\<rparr>,
       managementApi = Some (PathApiClient ''https://10.0.0.1/x'' ''ABC''),
       recorded = [INSTANCE_CREATED, IP_ALLOCATED, COMPLETED]\<rparr>, Break)
   \<and> pollOnce (map_of [])
     (getOutlineGuestAttributes (Some (GuestAttributes (Some
        [(''apiUrl'', ''https://10.0.0.1/x''), (''certSha256'', ''%'')]))))
     (fst (instanceReadiness (map_of []) (smoothProvisioning []) newYandexServer))
   = (\<lparr>installState = \<lparr>held = IP_ALLOCATED, closed = False\<rparr>,
       managementApi = None,
       recorded = [INSTANCE_CREATED, IP_ALLOCATED]\<rparr>, Throw)"
  by (simp add: run_defs)

theorem pollOnce_priority_witness:
  "fst (pollOnce (map_of [(''QUJD'', ''ABC'')])
          (map_of [(''apiUrl'', ''https://10.0.0.1/x''), (''certSha256'', ''QUJD'')])
          newYandexServer)
     = \<lparr>installState = \<lparr>held = COMPLETED, closed = True\<rparr>,
        managementApi = Some (PathApiClient ''https://10.0.0.1/x'' ''ABC''),
        recorded = [COMPLETED]\<rparr>
   \<and> vs_get (installState (fst (pollOnce Map.empty
          (map_of [(''install-error'', ''1''), (''certSha256'', ''QUJD'')]) newYandexServer)))
     = FAILED
   \<and> vs_get (installState (fst (pollOnce Map.empty
          (map_of [(''install-started'', ''true''), (''certSha256'', ''QUJD'')]) newYandexServer)))
     = CERTIFICATE_CREATED
   \<and> vs_get (installState (fst (pollOnce Map.empty
          (map_of [(''install-started'', ''true'')]) newYandexServer)))
     = INSTANCE_RUNNING"
proof -
  have o: "\<not> vs_isClosed (installState newYandexServer)"
    by (simp add: newYandexServer_def vs_new_def vs_isClosed_def)
  note p = pollOnce_priority [OF o]
  have a: "fst (pollOnce (map_of [(''QUJD'', ''ABC'')])
          (map_of [(''apiUrl'', ''https://10.0.0.1/x''), (''certSha256'', ''QUJD'')])
          newYandexServer)
     = \<lparr>installState = \<lparr>held = COMPLETED, closed = True\<rparr>,
        managementApi = Some (PathApiClient ''https://10.0.0.1/x'' ''ABC''),
        recorded = [COMPLETED]\<rparr>"
    using p [of "map_of [(''apiUrl'', ''https://10.0.0.1/x''), (''certSha256'', ''QUJD'')]"
               "map_of [(''QUJD'', ''ABC'')]"]
    by (simp add: newYandexServer_def makePathApiClient_def)
  have b: "vs_get (installState (fst (pollOnce Map.empty
          (map_of [(''install-error'', ''1''), (''certSha256'', ''QUJD'')]) newYandexServer)))
     = FAILED"
    using p [of "map_of [(''install-error'', ''1''), (''certSha256'', ''QUJD'')]" Map.empty]
    by (simp add: has_def vs_get_def)
  have c: "vs_get (installState (fst (pollOnce Map.empty
          (map_of [(''install-started'', ''true''), (''certSha256'', ''QUJD'')]) newYandexServer)))
     = CERTIFICATE_CREATED"
    using p [of "map_of [(''install-started'', ''true''), (''certSha256'', ''QUJD'')]" Map.empty]
    by (simp add: has_def vs_get_def)
  have d: "vs_get (installState (fst (pollOnce Map.empty
          (map_of [(''install-started'', ''true'')]) newYandexServer)))
     = INSTANCE_RUNNING"
    using p [of "map_of [(''install-started'', ''true'')]" Map.empty]
    by (simp add: has_def vs_get_def)
  from a b c d show ?thesis by simp
qed

section \<open>Waiting for operations\<close>

text \<open>
  C7 (as amended). The zone-scoped waiter throws a \<open>GcpError\<close> carrying the code and
  message of the first entry when the resolved operation has a non-empty embedded error
  list (the other entries are dropped), and returns the operation when the list is
  absent. The region-scoped and the global waiter return whatever the fetch gave,
  error list or not.
\<close>

theorem operation_waiters:
  "computeEngineOperationZoneWait (Inr (Some (operation\<lparr>errors := Some ((code, msg) # others)\<rparr>)))
     = Inl (GcpError code msg)
   \<and> computeEngineOperationZoneWait (Inr (Some (operation\<lparr>errors := None\<rparr>)))
     = Inr (Some (operation\<lparr>errors := None\<rparr>))
   \<and> computeEngineOperationRegionWait fetchResult = fetchResult
   \<and> computeEngineOperationGlobalWait fetchResult = fetchResult"
  by (simp add: computeEngineOperationZoneWait_def computeEngineOperationRegionWait_def
        computeEngineOperationGlobalWait_def)

text \<open>
  C7 as stated fails for two of the three variants: the region and global waiters hand
  an operation with an embedded error list back to the caller (which inspects
  \<^verbatim>\<open>error?.errors\<close> itself, as \<^verbatim>\<open>promoteEphemeralIp\<close> and \<^verbatim>\<open>createFirewallIfNeeded\<close> do).
\<close>

theorem region_wait_returns_failed_operation:
  "computeEngineOperationRegionWait
     (Inr (Some \<lparr>operationName = ''operation-1'', targetId = ''42'',
                 errors = Some [(Some ''QUOTA_EXCEEDED'', Some ''Quota exceeded'')]\<rparr>))
   = Inr (Some \<lparr>operationName = ''operation-1'', targetId = ''42'',
                 errors = Some [(Some ''QUOTA_EXCEEDED'', Some ''Quota exceeded'')]\<rparr>)
   \<and> computeEngineOperationGlobalWait
     (Inr (Some \<lparr>operationName = ''operation-1'', targetId = ''42'',
                 errors = Some [(Some ''QUOTA_EXCEEDED'', Some ''Quota exceeded'')]\<rparr>))
   = Inr (Some \<lparr>operationName = ''operation-1'', targetId = ''42'',
                 errors = Some [(Some ''QUOTA_EXCEEDED'', Some ''Quota exceeded'')]\<rparr>)
   \<and> computeEngineOperationZoneWait
     (Inr (Some \<lparr>operationName = ''operation-1'', targetId = ''42'',
                 errors = Some [(Some ''QUOTA_EXCEEDED'', Some ''Quota exceeded'')]\<rparr>))
   = Inl (GcpError (Some ''QUOTA_EXCEEDED'') (Some ''Quota exceeded''))"
  by (simp add: computeEngineOperationZoneWait_def computeEngineOperationRegionWait_def
        computeEngineOperationGlobalWait_def)

section \<open>Not-found answers\<close>




section \<open>The order of deletion\<close>

text \<open>
  C4. In every execution of \<open>delete()\<close>: the delete callback runs first (the server is
  left as \<open>onDelete\<close> leaves it) and the wait for the readiness promise comes second;
  how that promise settles does not change what \<open>delete()\<close> answers; of the two
  deletion requests the static address is asked first and the instance second, the
  second being sent exactly when the first step succeeded or answered 404; \<open>delete()\<close>
  resolves when both steps succeeded or answered 404, and rejects with the error of the
  first step that failed otherwise.
\<close>

theorem delete_host_order:
  "fst (delete_host regionOf host srv readiness staticIpDeletion instanceDeletion) = onDelete srv
   \<and> take 2 (fst (snd (delete_host regionOf host srv readiness staticIpDeletion instanceDeletion)))
       = [DeleteCallback, AwaitReadiness]
   \<and> filter isRequest
        (fst (snd (delete_host regionOf host srv readiness staticIpDeletion instanceDeletion)))
       = RequestDeleteStaticIp
           \<lparr>projectId = projectId (locator host), regionId = regionOf (zoneId (locator host))\<rparr>
           (yandexInstanceName host)
         # (if tolerated staticIpDeletion then [RequestDeleteInstance (locator host)] else [])
   \<and> snd (snd (delete_host regionOf host srv readiness staticIpDeletion instanceDeletion))
       = snd (snd (delete_host regionOf host srv None staticIpDeletion instanceDeletion))
   \<and> (tolerated staticIpDeletion \<and> tolerated instanceDeletion \<longrightarrow>
        snd (snd (delete_host regionOf host srv readiness staticIpDeletion instanceDeletion)) = None)
   \<and> (\<forall>e. staticIpDeletion = Inl e \<and> \<not> is404 e \<longrightarrow>
        snd (snd (delete_host regionOf host srv readiness staticIpDeletion instanceDeletion)) = Some e)
   \<and> (\<forall>e. tolerated staticIpDeletion \<and> instanceDeletion = Inl e \<and> \<not> is404 e \<longrightarrow>
        snd (snd (delete_host regionOf host srv readiness staticIpDeletion instanceDeletion)) = Some e)"
  by (cases staticIpDeletion; cases instanceDeletion; cases readiness)
     (auto simp: delete_host_def waitForDelete_def tolerated_def isRequest_def Let_def)

theorem delete_host_order_witness:
  "snd (snd (delete_host (\<lambda>zone. ''ru-central1'')
        \<lparr>locator = \<lparr>projectId = ''b1g'', zoneId = ''ru-central1-a'', instanceId = ''fhm1''\<rparr>,
         yandexInstanceName = ''outline-20240101-000000''\<rparr>
        newYandexServer (Some (ServerInstallFailedError []))
        (Inl (HttpError 404 ''Not Found'') :: error + unit) (Inr () :: error + unit)))
     = None
   \<and> snd (snd (delete_host (\<lambda>zone. ''ru-central1'')
        \<lparr>locator = \<lparr>projectId = ''b1g'', zoneId = ''ru-central1-a'', instanceId = ''fhm1''\<rparr>,
         yandexInstanceName = ''outline-20240101-000000''\<rparr>
        newYandexServer None
        (Inl (HttpError 500 ''Internal Server Error'') :: error + unit) (Inr () :: error + unit)))
     = Some (HttpError 500 ''Internal Server Error'')
   \<and> snd (snd (delete_host (\<lambda>zone. ''ru-central1'')
        \<lparr>locator = \<lparr>projectId = ''b1g'', zoneId = ''ru-central1-a'', instanceId = ''fhm1''\<rparr>,
         yandexInstanceName = ''outline-20240101-000000''\<rparr>
        newYandexServer None
        (Inr () :: error + unit) (Inl (HttpError 403 ''Forbidden'') :: error + unit)))
     = Some (HttpError 403 ''Forbidden'')"
proof -
  let ?h = "\<lparr>locator = \<lparr>projectId = ''b1g'', zoneId = ''ru-central1-a'', instanceId = ''fhm1''\<rparr>,
         yandexInstanceName = ''outline-20240101-000000''\<rparr>"
  have t: "tolerated (Inl (HttpError 404 ''Not Found'') :: error + unit)"
    "tolerated (Inr () :: error + unit)"
    by (simp_all add: tolerated_def)
  have n: "\<not> is404 (HttpError 500 ''Internal Server Error'')" "\<not> is404 (HttpError 403 ''Forbidden'')"
    by simp_all
  from delete_host_order [of "\<lambda>zone. ''ru-central1''" ?h newYandexServer
      "Some (ServerInstallFailedError [])" "Inl (HttpError 404 ''Not Found'') :: error + unit"
      "Inr () :: error + unit"] t
  have a: "snd (snd (delete_host (\<lambda>zone. ''ru-central1'') ?h newYandexServer
      (Some (ServerInstallFailedError []))
      (Inl (HttpError 404 ''Not Found'') :: error + unit) (Inr () :: error + unit))) = None"
    by blast
  from delete_host_order [of "\<lambda>zone. ''ru-central1''" ?h newYandexServer None
      "Inl (HttpError 500 ''Internal Server Error'') :: error + unit" "Inr () :: error + unit"] n
  have b: "snd (snd (delete_host (\<lambda>zone. ''ru-central1'') ?h newYandexServer None
      (Inl (HttpError 500 ''Internal Server Error'') :: error + unit) (Inr () :: error + unit)))
      = Some (HttpError 500 ''Internal Server Error'')"
    by blast
  from delete_host_order [of "\<lambda>zone. ''ru-central1''" ?h newYandexServer None
      "Inr () :: error + unit" "Inl (HttpError 403 ''Forbidden'') :: error + unit"] t n
  have c: "snd (snd (delete_host (\<lambda>zone. ''ru-central1'') ?h newYandexServer None
      (Inr () :: error + unit) (Inl (HttpError 403 ''Forbidden'') :: error + unit)))
      = Some (HttpError 403 ''Forbidden'')"
    by blast
  from a b c show ?thesis by simp
qed

section \<open>Parsing a zone URL\<close>

lemma stripLiteral_iff: "stripLiteral lit s = Some r \<longleftrightarrow> s = lit @ r"
  by (induction lit s rule: stripLiteral.induct) auto

lemma takeWhile_group:
  "CHR ''/'' \<notin> set g \<Longrightarrow> takeWhile (\<lambda>c. c \<noteq> CHR ''/'') (g @ CHR ''/'' # r) = g"
  by (induction g) auto

lemma dropWhile_group:
  "CHR ''/'' \<notin> set g \<Longrightarrow> dropWhile (\<lambda>c. c \<noteq> CHR ''/'') (g @ CHR ''/'' # r) = CHR ''/'' # r"
  by (induction g) auto

lemma takeWhile_all:
  "CHR ''/'' \<notin> set g \<Longrightarrow> takeWhile (\<lambda>c. c \<noteq> CHR ''/'') g = g"
  by (induction g) auto

lemma dropWhile_all:
  "CHR ''/'' \<notin> set g \<Longrightarrow> dropWhile (\<lambda>c. c \<noteq> CHR ''/'') g = []"
  by (induction g) auto

lemma slash_free_takeWhile: "CHR ''/'' \<notin> set (takeWhile (\<lambda>c. c \<noteq> CHR ''/'') s)"
  by (induction s) auto

lemma matchGroups_complete:
  assumes "p \<noteq> []" "z \<noteq> []" "CHR ''/'' \<notin> set p" "CHR ''/'' \<notin> set z"
  shows "matchGroups lit1 (CHR ''/'' # lit2) (lit1 @ p @ (CHR ''/'' # lit2) @ z) = Some (p, z)"
proof -
  have s1: "stripLiteral lit1 (lit1 @ p @ (CHR ''/'' # lit2) @ z) = Some (p @ CHR ''/'' # lit2 @ z)"
    by (simp add: stripLiteral_iff)
  have s3: "stripLiteral (CHR ''/'' # lit2) (CHR ''/'' # lit2 @ z) = Some z"
    by (simp add: stripLiteral_iff)
  show ?thesis
    unfolding matchGroups_def s1
    using assms
    by (simp add: takeWhile_group dropWhile_group s3 takeWhile_all dropWhile_all Let_def
             del: stripLiteral.simps)
qed

lemma matchGroups_sound:
  assumes "matchGroups lit1 lit2 s = Some (p, z)"
  shows "s = lit1 @ p @ lit2 @ z
       \<and> p \<noteq> [] \<and> z \<noteq> [] \<and> CHR ''/'' \<notin> set p \<and> CHR ''/'' \<notin> set z"
proof -
  from assms obtain s1 where a1: "stripLiteral lit1 s = Some s1"
    by (auto simp: matchGroups_def split: option.splits)
  let ?p = "takeWhile (\<lambda>c. c \<noteq> CHR ''/'') s1"
  let ?s2 = "dropWhile (\<lambda>c. c \<noteq> CHR ''/'') s1"
  from assms a1 have pn: "?p \<noteq> []"
    by (auto simp: matchGroups_def Let_def split: option.splits if_splits)
  from assms a1 pn obtain s3 where a3: "stripLiteral lit2 ?s2 = Some s3"
    by (auto simp: matchGroups_def Let_def split: option.splits if_splits)
  let ?z = "takeWhile (\<lambda>c. c \<noteq> CHR ''/'') s3"
  from assms a1 pn a3 have zn: "?z \<noteq> []"
    and d: "dropWhile (\<lambda>c. c \<noteq> CHR ''/'') s3 = []" and pz: "p = ?p" "z = ?z"
    by (auto simp: matchGroups_def Let_def split: if_splits)
  have "?z @ dropWhile (\<lambda>c. c \<noteq> CHR ''/'') s3 = s3"
    by (rule takeWhile_dropWhile_id)
  with d pz have z3: "s3 = z" by (simp only: append_Nil2)
  have "?p @ ?s2 = s1" by (rule takeWhile_dropWhile_id)
  moreover from a3 z3 have "?s2 = lit2 @ z" by (simp add: stripLiteral_iff)
  ultimately have "s1 = p @ lit2 @ z" using pz by simp
  with a1 have "s = lit1 @ p @ lit2 @ z"
    by (simp add: stripLiteral_iff)
  moreover have "CHR ''/'' \<notin> set p" "CHR ''/'' \<notin> set z"
    unfolding pz by (rule slash_free_takeWhile)+
  ultimately show ?thesis using pn zn pz by simp
qed

lemma last_segment:
  assumes "xs @ CHR ''/'' # z = xs' @ CHR ''/'' # z'" "CHR ''/'' \<notin> set z" "CHR ''/'' \<notin> set z'"
  shows "xs = xs' \<and> z = z'"
proof -
  have "takeWhile (\<lambda>c. c \<noteq> CHR ''/'') (rev (xs @ CHR ''/'' # z)) = rev z"
    using assms(2) by (simp add: takeWhile_group)
  moreover have "takeWhile (\<lambda>c. c \<noteq> CHR ''/'') (rev (xs' @ CHR ''/'' # z')) = rev z'"
    using assms(3) by (simp add: takeWhile_group)
  ultimately have "z = z'" using assms(1) by simp
  with assms(1) show ?thesis by simp
qed

lemma groups_unique:
  assumes e: "b @ (i1 @ [CHR ''/'']) @ p @ (i2 @ [CHR ''/'']) @ z
            = b' @ (i1 @ [CHR ''/'']) @ p' @ (i2 @ [CHR ''/'']) @ z'"
    and f: "CHR ''/'' \<notin> set p" "CHR ''/'' \<notin> set z" "CHR ''/'' \<notin> set p'" "CHR ''/'' \<notin> set z'"
  shows "p = p' \<and> z = z'"
proof -
  from e have "(b @ i1 @ CHR ''/'' # p @ i2) @ CHR ''/'' # z
      = (b' @ i1 @ CHR ''/'' # p' @ i2) @ CHR ''/'' # z'"
    by simp
  from last_segment [OF this f(2) f(4)]
  have z: "z = z'" and "b @ i1 @ CHR ''/'' # p @ i2 = b' @ i1 @ CHR ''/'' # p' @ i2"
    by simp_all
  then have "((b @ i1) @ CHR ''/'' # p) @ i2 = ((b' @ i1) @ CHR ''/'' # p') @ i2"
    by simp
  then have "(b @ i1) @ CHR ''/'' # p = (b' @ i1) @ CHR ''/'' # p'"
    by (simp only: append_same_eq)
  from last_segment [OF this f(1) f(3)] z show ?thesis by simp
qed

lemma zonePath_unique:
  assumes "zonePath s p z" "zonePath s p' z'"
  shows "p = p' \<and> z = z'"
proof -
  from assms obtain b b' where
    e: "s = b @ ''/compute/v1/projects/'' @ p @ ''/zones/'' @ z"
       "s = b' @ ''/compute/v1/projects/'' @ p' @ ''/zones/'' @ z'"
    and f: "CHR ''/'' \<notin> set p" "CHR ''/'' \<notin> set z" "CHR ''/'' \<notin> set p'" "CHR ''/'' \<notin> set z'"
    unfolding zonePath_def by blast
  have l: "''/compute/v1/projects/'' = ''/compute/v1/projects'' @ [CHR ''/'']"
    "''/zones/'' = ''/zones'' @ [CHR ''/'']"
    by simp_all
  from e have "b @ ''/compute/v1/projects/'' @ p @ ''/zones/'' @ z
     = b' @ ''/compute/v1/projects/'' @ p' @ ''/zones/'' @ z'"
    by simp
  then show ?thesis
    unfolding l by (rule groups_unique [OF _ f])
qed

lemma matchHere_zonePath: "matchHere s = Some (p, z) \<Longrightarrow> zonePath s p z"
  unfolding matchHere_def zonePath_def
  by (drule matchGroups_sound) (metis append_Nil)

lemma zonePath_Cons: "zonePath s p z \<Longrightarrow> zonePath (c # s) p z"
  unfolding zonePath_def by (metis append_Cons)

lemma matchZoneUrl_sound: "matchZoneUrl s = Some (p, z) \<Longrightarrow> zonePath s p z"
proof (induction s)
  case Nil
  then show ?case by (simp add: matchHere_zonePath)
next
  case (Cons c s)
  show ?case
  proof (cases "matchHere (c # s)")
    case None
    with Cons have "zonePath s p z" by simp
    then show ?thesis by (rule zonePath_Cons)
  next
    case (Some g)
    with Cons.prems show ?thesis by (simp add: matchHere_zonePath)
  qed
qed

lemma matchZoneUrl_append:
  assumes g: "p \<noteq> []" "z \<noteq> []" "CHR ''/'' \<notin> set p" "CHR ''/'' \<notin> set z"
  shows "matchZoneUrl (b @ ''/compute/v1/projects/'' @ p @ ''/zones/'' @ z) = Some (p, z)"
proof (induction b)
  case Nil
  have "matchHere (''/compute/v1/projects/'' @ p @ ''/zones/'' @ z) = Some (p, z)"
    unfolding matchHere_def by (rule matchGroups_complete [OF g])
  then show ?case by simp
next
  case (Cons c b)
  let ?rest = "b @ ''/compute/v1/projects/'' @ p @ ''/zones/'' @ z"
  have zr: "zonePath ?rest p z"
    unfolding zonePath_def using g by blast
  show ?case
  proof (cases "matchHere (c # ?rest)")
    case None
    with Cons.IH show ?thesis by simp
  next
    case (Some gr)
    obtain p' z' where gr: "gr = (p', z')" by (cases gr)
    with Some have "zonePath (c # ?rest) p' z'" by (simp add: matchHere_zonePath)
    with zonePath_Cons [OF zr, of c] have "p = p' \<and> z = z'"
      by (rule zonePath_unique)
    with Some gr show ?thesis by simp
  qed
qed

lemma matchZoneUrl_complete:
  assumes "zonePath s p z"
  shows "matchZoneUrl s = Some (p, z)"
proof -
  from assms obtain b where s: "s = b @ ''/compute/v1/projects/'' @ p @ ''/zones/'' @ z"
    and g: "p \<noteq> []" "z \<noteq> []" "CHR ''/'' \<notin> set p" "CHR ''/'' \<notin> set z"
    unfolding zonePath_def by blast
  show ?thesis unfolding s by (rule matchZoneUrl_append [OF g])
qed

text \<open>
  C9 (as amended). For every input string: when the URL parser accepts it and its path
  ends with \<^verbatim>\<open>/compute/v1/projects/<projectId>/zones/<zoneId>\<close> (both groups non-empty
  and free of slashes), \<open>parseZoneUrl\<close> yields that project and zone; when the parser
  rejects it or its path does not end so, \<open>parseZoneUrl\<close> fails with a \<open>TypeError\<close>
  (from the URL constructor, or from reading \<^verbatim>\<open>.groups\<close> of \<^verbatim>\<open>null\<close>).
\<close>

theorem parseZoneUrl_result:
  "(pathnameOf url = Some path \<and> zonePath path p z \<longrightarrow>
      parseZoneUrl pathnameOf url = Inr \<lparr>projectId = p, zoneId = z\<rparr>)
   \<and> (pathnameOf url = None \<or> (pathnameOf url = Some path \<and> (\<forall>p z. \<not> zonePath path p z)) \<longrightarrow>
      parseZoneUrl pathnameOf url = Inl TypeError)"
proof -
  have "matchZoneUrl path = None" if "\<forall>p z. \<not> zonePath path p z"
  proof (cases "matchZoneUrl path")
    case None then show ?thesis .
  next
    case (Some g)
    then show ?thesis using that matchZoneUrl_sound by (cases g) blast
  qed
  then show ?thesis
    by (auto simp: parseZoneUrl_def matchZoneUrl_complete)
qed

text \<open>
  C9 as stated fails in its second half: the failure is the engine's \<open>TypeError\<close>; the
  code has no parse or format error of its own.
\<close>

theorem malformed_zone_url_is_type_error:
  "parseZoneUrl
     (map_of [(''https://compute.api.cloud.yandex.net/compute/v1/projects/b1g/regions/ru-central1'',
               ''/compute/v1/projects/b1g/regions/ru-central1'')])
     ''https://compute.api.cloud.yandex.net/compute/v1/projects/b1g/regions/ru-central1''
   = Inl TypeError
   \<and> parseZoneUrl (map_of []) ''not a url'' = Inl TypeError"
  by (simp add: parseZoneUrl_def matchHere_def matchGroups_def)

theorem parseZoneUrl_result_witness:
  "parseZoneUrl
     (map_of [(''https://compute.api.cloud.yandex.net/compute/v1/projects/b1g/zones/ru-central1-a'',
               ''/compute/v1/projects/b1g/zones/ru-central1-a'')])
     ''https://compute.api.cloud.yandex.net/compute/v1/projects/b1g/zones/ru-central1-a''
   = Inr \<lparr>projectId = ''b1g'', zoneId = ''ru-central1-a''\<rparr>
   \<and> parseZoneUrl (map_of [(''https://h/zones/a'', ''/zones/a'')]) ''https://h/zones/a''
   = Inl TypeError"
proof -
  let ?u = "''https://compute.api.cloud.yandex.net/compute/v1/projects/b1g/zones/ru-central1-a''"
  let ?p = "''/compute/v1/projects/b1g/zones/ru-central1-a''"
  have "?p = [] @ ''/compute/v1/projects/'' @ ''b1g'' @ ''/zones/'' @ ''ru-central1-a''"
    by simp
  then have z: "zonePath ?p ''b1g'' ''ru-central1-a''"
    unfolding zonePath_def by (intro conjI exI) simp_all
  have l: "map_of [(?u, ?p)] ?u = Some ?p" by simp
  from parseZoneUrl_result [of "map_of [(?u, ?p)]" ?u ?p "''b1g''" "''ru-central1-a''"] l z
  have a: "parseZoneUrl (map_of [(?u, ?p)]) ?u = Inr \<lparr>projectId = ''b1g'', zoneId = ''ru-central1-a''\<rparr>"
    by blast
  have "matchZoneUrl ''/zones/a'' = None"
    by (simp add: matchHere_def matchGroups_def)
  then have n: "\<forall>p z. \<not> zonePath ''/zones/a'' p z"
    using matchZoneUrl_complete by fastforce
  have l': "map_of [(''https://h/zones/a'', ''/zones/a'')] ''https://h/zones/a'' = Some ''/zones/a''"
    by simp
  from parseZoneUrl_result [of "map_of [(''https://h/zones/a'', ''/zones/a'')]"
      "''https://h/zones/a''" "''/zones/a''"] l' n
  have b: "parseZoneUrl (map_of [(''https://h/zones/a'', ''/zones/a'')]) ''https://h/zones/a''
      = Inl TypeError"
    by blast
  from a b show ?thesis by simp
qed

section \<open>Retrying the creation request\<close>

lemma indexOf_sublist: "0 \<le> indexOf s needle \<longleftrightarrow> sublist needle s"
proof (induction s)
  case Nil
  then show ?case by simp
next
  case (Cons c s)
  then show ?case
    by (auto simp: Let_def sublist_Cons_right)
qed

lemma attempts_step:
  "0 < m \<Longrightarrow> attempts (Suc m) body = PostInstances body # SetTimeout 5000 # attempts m body"
  by (cases m) simp_all

lemma makeRequestRecursive_run:
  "requestCount < MAX_REQUESTS \<Longrightarrow>
   \<exists>n. requestCount < n \<and> n \<le> MAX_REQUESTS
     \<and> (\<forall>k. requestCount < k \<and> k < n \<longrightarrow> retryable (respond k))
     \<and> (n < MAX_REQUESTS \<longrightarrow> \<not> retryable (respond n))
     \<and> makeRequestRecursive respond body requestCount
         = (attempts (n - requestCount) body, respond n)"
proof (induction respond body requestCount rule: makeRequestRecursive.induct)
  case (1 respond body requestCount)
  let ?k = "requestCount + 1"
  show ?case
  proof (cases "retryable (respond ?k) \<and> ?k < MAX_REQUESTS")
    case False
    then have "makeRequestRecursive respond body requestCount = ([PostInstances body], respond ?k)"
      by (subst makeRequestRecursive.simps)
         (auto simp: retryable_def indexOf_sublist split: sum.splits)
    with False "1.prems" show ?thesis
      by (intro exI [of _ ?k]) auto
  next
    case True
    then obtain e where e: "respond ?k = Inl e"
      and f: "0 \<le> indexOf (toLowerCase (message e)) ''finalizing''"
      by (auto simp: retryable_def indexOf_sublist split: sum.splits)
    from True have lt: "?k < MAX_REQUESTS" by simp
    from "1.IH" [OF e _ lt] f lt obtain n where n: "?k < n" "n \<le> MAX_REQUESTS"
      and r: "\<forall>j. ?k < j \<and> j < n \<longrightarrow> retryable (respond j)"
      and l: "n < MAX_REQUESTS \<longrightarrow> \<not> retryable (respond n)"
      and run: "makeRequestRecursive respond body ?k = (attempts (n - ?k) body, respond n)"
      by auto
    have all: "\<forall>j. requestCount < j \<and> j < n \<longrightarrow> retryable (respond j)"
    proof (intro allI impI)
      fix j assume "requestCount < j \<and> j < n"
      then have "j = ?k \<or> (?k < j \<and> j < n)" by arith
      with True r show "retryable (respond j)" by blast
    qed
    have "n - requestCount = Suc (n - ?k)" "0 < n - ?k"
      using n by arith+
    then have "attempts (n - requestCount) body
        = PostInstances body # SetTimeout 5000 # attempts (n - ?k) body"
      by (simp add: attempts_step)
    moreover have "makeRequestRecursive respond body requestCount
        = (PostInstances body # SetTimeout RETRY_TIMEOUT_MS # attempts (n - ?k) body, respond n)"
      using e f lt run by (subst makeRequestRecursive.simps) simp
    ultimately have "makeRequestRecursive respond body requestCount
        = (attempts (n - requestCount) body, respond n)"
      by (simp add: RETRY_TIMEOUT_MS_def)
    with n all l show ?thesis
      by (intro exI [of _ n]) auto
  qed
qed

text \<open>
  C3. Whatever the successive outcomes of the underlying request are, the call makes
  some number \<open>n\<close> of attempts between 1 and 10, all with the same body and each two
  separated by a wait of 5000 ms, such that every attempt before the \<open>n\<close>-th ended in an
  error whose lower-cased message contains \<open>finalizing\<close> (so it was retried, fewer than
  10 attempts having been made), the \<open>n\<close>-th did not unless it was the 10th (so it was
  not retried), and the call settles exactly as the \<open>n\<close>-th attempt did: fulfilled with
  its response, or rejected with its very error.
\<close>

theorem makeCreateInstanceRequest_retries:
  "\<exists>n. 1 \<le> n \<and> n \<le> 10
     \<and> (\<forall>k. 1 \<le> k \<and> k < n \<longrightarrow> retryable (respond k))
     \<and> (n < 10 \<longrightarrow> \<not> retryable (respond n))
     \<and> makeCreateInstanceRequest respond instanceName region keyId instanceSpec
         = (attempts n
              \<lparr>bodyName = instanceName, bodyRegion = region, bodySize = specSize instanceSpec,
               bodyImage = specImage instanceSpec, bodySshKeys = [keyId],
               bodyUserData = installCommand instanceSpec, bodyTags = specTags instanceSpec,
               bodyIpv6 = True\<rparr>,
            respond n)"
proof -
  let ?body = "\<lparr>bodyName = instanceName, bodyRegion = region, bodySize = specSize instanceSpec,
               bodyImage = specImage instanceSpec, bodySshKeys = [keyId],
               bodyUserData = installCommand instanceSpec, bodyTags = specTags instanceSpec,
               bodyIpv6 = True\<rparr>"
  have "0 < MAX_REQUESTS" by (simp add: MAX_REQUESTS_def)
  from makeRequestRecursive_run [OF this, of respond ?body]
  obtain n where "0 < n" "n \<le> MAX_REQUESTS"
    "\<forall>k. 0 < k \<and> k < n \<longrightarrow> retryable (respond k)"
    "n < MAX_REQUESTS \<longrightarrow> \<not> retryable (respond n)"
    "makeRequestRecursive respond ?body 0 = (attempts (n - 0) ?body, respond n)"
    by blast
  then show ?thesis
    unfolding makeCreateInstanceRequest_def MAX_REQUESTS_def
    by (intro exI [of _ n]) (simp add: Suc_le_eq)
qed

theorem makeCreateInstanceRequest_retries_witness:
  "makeCreateInstanceRequest
     (\<lambda>k. if k < 3 then Inl (RequestError ''XHR 7 failed with 422: still Finalizing'')
          else Inr ''fhm1'')
     ''outline'' ''ru-central1'' ''key-1''
     \<lparr>installCommand = ''./install.sh'', specSize = ''standard-v1'', specImage = ''ubuntu'',
      specTags = [''outline'']\<rparr>
   = (attempts 3
        \<lparr>bodyName = ''outline'', bodyRegion = ''ru-central1'', bodySize = ''standard-v1'',
         bodyImage = ''ubuntu'', bodySshKeys = [''key-1''], bodyUserData = ''./install.sh'',
         bodyTags = [''outline''], bodyIpv6 = True\<rparr>,
      Inr ''fhm1'')
   \<and> makeCreateInstanceRequest
     (\<lambda>k. Inl (RequestError ''finalizing'') :: request_error + string)
     ''outline'' ''ru-central1'' ''key-1''
     \<lparr>installCommand = ''./install.sh'', specSize = ''standard-v1'', specImage = ''ubuntu'',
      specTags = [''outline'']\<rparr>
   = (attempts 10
        \<lparr>bodyName = ''outline'', bodyRegion = ''ru-central1'', bodySize = ''standard-v1'',
         bodyImage = ''ubuntu'', bodySshKeys = [''key-1''], bodyUserData = ''./install.sh'',
         bodyTags = [''outline''], bodyIpv6 = True\<rparr>,
      Inl (RequestError ''finalizing''))"
proof -
  let ?spec = "\<lparr>installCommand = ''./install.sh'', specSize = ''standard-v1'', specImage = ''ubuntu'',
      specTags = [''outline'']\<rparr>"
  let ?f = "Inl (RequestError ''XHR 7 failed with 422: still Finalizing'') :: request_error + string"
  let ?r = "\<lambda>k::nat. if k < 3 then ?f else Inr ''fhm1''"
  let ?g = "\<lambda>k::nat. Inl (RequestError ''finalizing'') :: request_error + string"
  have rf: "retryable ?f" by code_simp
  have rg: "retryable (Inl (RequestError ''finalizing'') :: request_error + string)" by code_simp
  have nr: "\<not> retryable (Inr ''fhm1'' :: request_error + string)" by (simp add: retryable_def)
  from makeCreateInstanceRequest_retries [of ?r "''outline''" "''ru-central1''" "''key-1''" ?spec]
  obtain n where n: "1 \<le> n" "n \<le> 10"
    and a: "\<forall>k. 1 \<le> k \<and> k < n \<longrightarrow> retryable (?r k)"
    and l: "n < 10 \<longrightarrow> \<not> retryable (?r n)"
    and run: "makeCreateInstanceRequest ?r ''outline'' ''ru-central1'' ''key-1'' ?spec
       = (attempts n \<lparr>bodyName = ''outline'', bodyRegion = ''ru-central1'',
            bodySize = specSize ?spec, bodyImage = specImage ?spec, bodySshKeys = [''key-1''],
            bodyUserData = installCommand ?spec, bodyTags = specTags ?spec, bodyIpv6 = True\<rparr>, ?r n)"
    by blast
  have "\<not> n < 3"
  proof
    assume "n < 3"
    with l have "\<not> retryable ?f" by simp
    with rf show False by simp
  qed
  moreover have "\<not> 3 < n"
  proof
    assume "3 < n"
    with a have "retryable (?r 3)" by (intro a [rule_format]) simp
    with nr show False by simp
  qed
  ultimately have "n = 3" by arith
  with run have first: "makeCreateInstanceRequest ?r ''outline'' ''ru-central1'' ''key-1'' ?spec
       = (attempts 3 \<lparr>bodyName = ''outline'', bodyRegion = ''ru-central1'',
            bodySize = ''standard-v1'', bodyImage = ''ubuntu'', bodySshKeys = [''key-1''],
            bodyUserData = ''./install.sh'', bodyTags = [''outline''], bodyIpv6 = True\<rparr>, Inr ''fhm1'')"
    by simp
  from makeCreateInstanceRequest_retries [of ?g "''outline''" "''ru-central1''" "''key-1''" ?spec]
  obtain m where m: "1 \<le> m" "m \<le> 10"
    and l': "m < 10 \<longrightarrow> \<not> retryable (?g m)"
    and run': "makeCreateInstanceRequest ?g ''outline'' ''ru-central1'' ''key-1'' ?spec
       = (attempts m \<lparr>bodyName = ''outline'', bodyRegion = ''ru-central1'',
            bodySize = specSize ?spec, bodyImage = specImage ?spec, bodySshKeys = [''key-1''],
            bodyUserData = installCommand ?spec, bodyTags = specTags ?spec, bodyIpv6 = True\<rparr>, ?g m)"
    by blast
  from l' rg have "\<not> m < 10" by blast
  with m have "m = 10" by arith
  with run' have second: "makeCreateInstanceRequest ?g ''outline'' ''ru-central1'' ''key-1'' ?spec
       = (attempts 10 \<lparr>bodyName = ''outline'', bodyRegion = ''ru-central1'',
            bodySize = ''standard-v1'', bodyImage = ''ubuntu'', bodySshKeys = [''key-1''],
            bodyUserData = ''./install.sh'', bodyTags = [''outline''], bodyIpv6 = True\<rparr>,
          Inl (RequestError ''finalizing''))"
    by simp
  from first second show ?thesis by (rule conjI)
qed

section \<open>The name sent when creating an instance\<close>

lemma makeRequestRecursive_effects:
  "set (fst (makeRequestRecursive respond body requestCount))
     \<subseteq> {PostInstances body, SetTimeout RETRY_TIMEOUT_MS}
   \<and> PostInstances body \<in> set (fst (makeRequestRecursive respond body requestCount))"
proof (induction respond body requestCount rule: makeRequestRecursive.induct)
  case (1 respond body requestCount)
  show ?case
  proof (cases "respond (requestCount + 1)")
    case (Inr response)
    then show ?thesis by (subst (1 2) makeRequestRecursive.simps) simp
  next
    case (Inl e)
    show ?thesis
    proof (cases "0 \<le> indexOf (toLowerCase (message e)) ''finalizing''
                  \<and> requestCount + 1 < MAX_REQUESTS")
      case False
      with Inl show ?thesis by (subst (1 2) makeRequestRecursive.simps) auto
    next
      case True
      with "1.IH" [OF Inl] have "set (fst (makeRequestRecursive respond body (requestCount + 1)))
         \<subseteq> {PostInstances body, SetTimeout RETRY_TIMEOUT_MS}"
        by blast
      with Inl True show ?thesis
        by (subst (1 2) makeRequestRecursive.simps) (auto simp: split_beta)
    qed
  qed
qed

lemma sentName_request:
  assumes "eff \<in> set (fst (makeCreateInstanceRequest respond instanceName region keyId instanceSpec))"
  shows "sentName eff = None \<or> sentName eff = Some instanceName"
  using assms makeRequestRecursive_effects
  unfolding makeCreateInstanceRequest_def by fastforce

text \<open>
  C10. For every display name, every request \<open>createInstance\<close> sends carries as name the
  display name with the characters outside \<^verbatim>\<open>[A-Za-z0-9-]\<close> removed: the key registration,
  which is always sent first, and every instance-creation request, of which there is at
  least one once the key is registered. The raw display name is never sent when it has
  a character outside the class, and a name made only of such characters becomes empty.
\<close>

theorem createInstance_sends_valid_name:
  "(\<forall>eff \<in> set (fst (createInstance registration respond displayName region publicKeyForSSH instanceSpec)).
      sentName eff = None \<or> sentName eff = Some (filter validNameChar displayName))
   \<and> hd (fst (createInstance registration respond displayName region publicKeyForSSH instanceSpec))
       = PostAccountKeys (filter validNameChar displayName) publicKeyForSSH
   \<and> (\<forall>keyId. registration = Inr keyId \<longrightarrow>
        PostInstances
          \<lparr>bodyName = filter validNameChar displayName, bodyRegion = region,
           bodySize = specSize instanceSpec, bodyImage = specImage instanceSpec,
           bodySshKeys = [keyId], bodyUserData = installCommand instanceSpec,
           bodyTags = specTags instanceSpec, bodyIpv6 = True\<rparr>
        \<in> set (fst (createInstance registration respond displayName region publicKeyForSSH instanceSpec)))
   \<and> ((\<exists>c \<in> set displayName. \<not> validNameChar c) \<longrightarrow>
        (\<forall>eff \<in> set (fst (createInstance registration respond displayName region publicKeyForSSH instanceSpec)).
           sentName eff \<noteq> Some displayName))
   \<and> ((\<forall>c \<in> set displayName. \<not> validNameChar c) \<longrightarrow> makeValidInstanceName displayName = [])"
proof -
  let ?n = "filter validNameChar displayName"
  let ?run = "createInstance registration respond displayName region publicKeyForSSH instanceSpec"
  have names: "sentName eff = None \<or> sentName eff = Some ?n" if "eff \<in> set (fst ?run)" for eff
  proof (cases registration)
    case (Inl e)
    with that show ?thesis
      by (simp add: createInstance_def makeValidInstanceName_def)
  next
    case (Inr keyId)
    with that have "eff = PostAccountKeys ?n publicKeyForSSH
        \<or> eff \<in> set (fst (makeCreateInstanceRequest respond ?n region keyId instanceSpec))"
      by (auto simp: createInstance_def makeValidInstanceName_def split_beta Let_def)
    then show ?thesis using sentName_request by fastforce
  qed
  have first: "hd (fst ?run) = PostAccountKeys ?n publicKeyForSSH"
    by (cases registration)
       (simp_all add: createInstance_def makeValidInstanceName_def split_beta Let_def)
  have sent: "PostInstances
          \<lparr>bodyName = ?n, bodyRegion = region,
           bodySize = specSize instanceSpec, bodyImage = specImage instanceSpec,
           bodySshKeys = [keyId], bodyUserData = installCommand instanceSpec,
           bodyTags = specTags instanceSpec, bodyIpv6 = True\<rparr> \<in> set (fst ?run)"
    if "registration = Inr keyId" for keyId
    using that makeRequestRecursive_effects [of respond _ 0]
    by (simp add: createInstance_def makeValidInstanceName_def split_beta Let_def
          makeCreateInstanceRequest_def)
  have raw: "sentName eff \<noteq> Some displayName"
    if "\<exists>c \<in> set displayName. \<not> validNameChar c" "eff \<in> set (fst ?run)" for eff
  proof -
    from that(1) have "?n \<noteq> displayName" by (simp add: filter_id_conv)
    with names [OF that(2)] show ?thesis by auto
  qed
  have empty: "makeValidInstanceName displayName = []" if "\<forall>c \<in> set displayName. \<not> validNameChar c"
    using that by (simp add: makeValidInstanceName_def filter_empty_conv)
  from names first sent raw empty show ?thesis by blast
qed

theorem createInstance_sends_valid_name_witness:
  "fst (createInstance (Inr ''key-1'') (\<lambda>k. Inr ''fhm1'' :: request_error + string)
          ''My server #1!'' ''ru-central1'' ''ssh-rsa AAAA''
          \<lparr>installCommand = ''./install.sh'', specSize = ''standard-v1'', specImage = ''ubuntu'',
           specTags = [''outline'']\<rparr>)
   = [PostAccountKeys ''Myserver1'' ''ssh-rsa AAAA'',
      PostInstances
        \<lparr>bodyName = ''Myserver1'', bodyRegion = ''ru-central1'', bodySize = ''standard-v1'',
         bodyImage = ''ubuntu'', bodySshKeys = [''key-1''], bodyUserData = ''./install.sh'',
         bodyTags = [''outline''], bodyIpv6 = True\<rparr>]
   \<and> makeValidInstanceName ''#!? '' = []
   \<and> hd (fst (createInstance (Inl XhrError) (\<lambda>k. Inr ''fhm1'' :: request_error + string)
          ''#!? '' ''ru-central1'' ''ssh-rsa AAAA''
          \<lparr>installCommand = ''./install.sh'', specSize = ''standard-v1'', specImage = ''ubuntu'',
           specTags = [''outline'']\<rparr>))
     = PostAccountKeys [] ''ssh-rsa AAAA''"
proof -
  let ?spec = "\<lparr>installCommand = ''./install.sh'', specSize = ''standard-v1'', specImage = ''ubuntu'',
           specTags = [''outline'']\<rparr>"
  have v: "filter validNameChar ''My server #1!'' = ''Myserver1''"
    "filter validNameChar ''#!? '' = []"
    by (simp_all add: validNameChar_def)
  have mv: "makeValidInstanceName ''My server #1!'' = ''Myserver1''"
    by (simp only: makeValidInstanceName_def v)
  have run: "fst (createInstance (Inr ''key-1'') (\<lambda>k. Inr ''fhm1'' :: request_error + string)
          ''My server #1!'' ''ru-central1'' ''ssh-rsa AAAA'' ?spec)
   = [PostAccountKeys ''Myserver1'' ''ssh-rsa AAAA'',
      PostInstances
        \<lparr>bodyName = ''Myserver1'', bodyRegion = ''ru-central1'', bodySize = ''standard-v1'',
         bodyImage = ''ubuntu'', bodySshKeys = [''key-1''], bodyUserData = ''./install.sh'',
         bodyTags = [''outline''], bodyIpv6 = True\<rparr>]"
    by (simp add: createInstance_def mv makeCreateInstanceRequest_def makeRequestRecursive.simps
          Let_def)
  have bad: "\<forall>c \<in> set ''#!? ''. \<not> validNameChar c"
    by (simp add: validNameChar_def)
  note t = createInstance_sends_valid_name [of "Inl XhrError" "\<lambda>k. Inr ''fhm1''" "''#!? ''"
      "''ru-central1''" "''ssh-rsa AAAA''" ?spec]
  from t bad have "makeValidInstanceName ''#!? '' = []" by blast
  moreover from t v have "hd (fst (createInstance (Inl XhrError) (\<lambda>k. Inr ''fhm1'' :: request_error + string)
          ''#!? '' ''ru-central1'' ''ssh-rsa AAAA'' ?spec))
     = PostAccountKeys [] ''ssh-rsa AAAA''"
    by simp
  ultimately show ?thesis using run by simp
qed

end
